theory Spec2Isabelle
  imports Main
begin

text \<open>
  The scraper of \<^verbatim>\<open>resize/aws.go\<close>, which reads the table of EC2 instance types from a web
  page: the tree search \<^verbatim>\<open>findAll\<close>, the text extractor \<^verbatim>\<open>text\<close>, the attribute lookup
  \<^verbatim>\<open>attr\<close>, the row parser \<^verbatim>\<open>parseRow\<close> and the catalog fetcher \<^verbatim>\<open>InstanceTypes\<close> with its
  section locator.  Every function is translated from the source; what the source gets from
  libraries (the HTTP client, the HTML parser, the parser of floating point numbers, the
  Unicode case tables) is a parameter.
\<close>

section \<open>The Go library functions the scraper calls\<close>

text \<open>
  A Go string is a sequence of bytes, modelled as \<^typ>\<open>string\<close> (a list of 8-bit characters).
  The functions of package \<^verbatim>\<open>strings\<close> that the scraper uses work on the UTF-8 decoding of
  those bytes; \<^verbatim>\<open>unicode.IsSpace\<close> holds for U+0009..U+000D, U+0020, U+0085, U+00A0, U+1680,
  U+2000..U+200A, U+2028, U+2029, U+202F, U+205F and U+3000.  \<open>White_Space\<close> lists their UTF-8
  encodings.  No encoding is a prefix of another, and none starts with a continuation byte,
  so that decoding a rune at the head (or at the end) of a string yields a white space rune
  exactly when one of these byte sequences is a prefix (or a suffix) of the string.
\<close>

definition White_Space :: "string list" where
  "White_Space =
    [[CHR 0x09], [CHR 0x0A], [CHR 0x0B], [CHR 0x0C], [CHR 0x0D], [CHR 0x20],
     [CHR 0xC2, CHR 0x85], [CHR 0xC2, CHR 0xA0],
     [CHR 0xE1, CHR 0x9A, CHR 0x80],
     [CHR 0xE2, CHR 0x80, CHR 0x80], [CHR 0xE2, CHR 0x80, CHR 0x81],
     [CHR 0xE2, CHR 0x80, CHR 0x82], [CHR 0xE2, CHR 0x80, CHR 0x83],
     [CHR 0xE2, CHR 0x80, CHR 0x84], [CHR 0xE2, CHR 0x80, CHR 0x85],
     [CHR 0xE2, CHR 0x80, CHR 0x86], [CHR 0xE2, CHR 0x80, CHR 0x87],
     [CHR 0xE2, CHR 0x80, CHR 0x88], [CHR 0xE2, CHR 0x80, CHR 0x89],
     [CHR 0xE2, CHR 0x80, CHR 0x8A],
     [CHR 0xE2, CHR 0x80, CHR 0xA8], [CHR 0xE2, CHR 0x80, CHR 0xA9],
     [CHR 0xE2, CHR 0x80, CHR 0xAF],
     [CHR 0xE2, CHR 0x81, CHR 0x9F],
     [CHR 0xE3, CHR 0x80, CHR 0x80]]"

text \<open>The number of bytes of the white space rune at the head of a string, 0 when the
  string does not start with one; and the same for the rune at its end.\<close>

definition spaceLen :: "string \<Rightarrow> nat" where
  "spaceLen s =
     (case find (\<lambda>w. take (length w) s = w) White_Space of
        None \<Rightarrow> 0
      | Some w \<Rightarrow> length w)"

definition spaceLenLast :: "string \<Rightarrow> nat" where
  "spaceLenLast s =
     (case find (\<lambda>w. length w \<le> length s \<and> drop (length s - length w) s = w) White_Space of
        None \<Rightarrow> 0
      | Some w \<Rightarrow> length w)"

lemma White_Space_nonempty: "w \<in> set White_Space \<Longrightarrow> w \<noteq> []"
  by (auto simp: White_Space_def)

lemma spaceLen_le: "spaceLen s \<le> length s"
proof (cases "find (\<lambda>w. take (length w) s = w) White_Space")
  case None
  then show ?thesis by (simp add: spaceLen_def)
next
  case (Some w)
  then have "take (length w) s = w" by (auto simp: find_Some_iff)
  then have "length (take (length w) s) = length w" by simp
  then have "length w \<le> length s" by simp
  with Some show ?thesis by (simp add: spaceLen_def)
qed

lemma spaceLenLast_le: "spaceLenLast s \<le> length s"
  by (auto simp: spaceLenLast_def find_Some_iff split: option.splits)

lemma spaceLenLast_pos_nonempty: "spaceLenLast s \<noteq> 0 \<Longrightarrow> s \<noteq> []"
  using spaceLenLast_le [of s] by auto

text \<open>\<^verbatim>\<open>strings.TrimSpace(s)\<close> is \<^verbatim>\<open>TrimFunc(s, unicode.IsSpace)\<close>: white space runes are
  removed from the left, then from the right of what is left.\<close>

function TrimLeft :: "string \<Rightarrow> string" where
  "TrimLeft s = (if spaceLen s = 0 then s else TrimLeft (drop (spaceLen s) s))"
  by pat_completeness auto
termination
proof (relation "measure length")
  show "wf (measure length)" by simp
next
  fix s :: string
  assume "spaceLen s \<noteq> 0"
  moreover have "spaceLen s \<le> length s" by (rule spaceLen_le)
  ultimately show "(drop (spaceLen s) s, s) \<in> measure length" by simp
qed

function TrimRight :: "string \<Rightarrow> string" where
  "TrimRight s =
     (if spaceLenLast s = 0 then s else TrimRight (take (length s - spaceLenLast s) s))"
  by pat_completeness auto
termination
proof (relation "measure length")
  show "wf (measure length)" by simp
next
  fix s :: string
  assume "spaceLenLast s \<noteq> 0"
  moreover have "spaceLenLast s \<le> length s" by (rule spaceLenLast_le)
  ultimately show "(take (length s - spaceLenLast s) s, s) \<in> measure length" by simp
qed

declare TrimLeft.simps [simp del] TrimRight.simps [simp del]

definition TrimSpace :: "string \<Rightarrow> string" where
  "TrimSpace s = TrimRight (TrimLeft s)"

text \<open>\<^verbatim>\<open>strings.Join(elems, sep)\<close>.\<close>

fun Join :: "string list \<Rightarrow> string \<Rightarrow> string" where
  "Join [] sep = []"
| "Join [x] sep = x"
| "Join (x # y # ys) sep = x @ sep @ Join (y # ys) sep"

text \<open>\<^verbatim>\<open>strings.Fields(s)\<close>: the maximal runs of bytes between white space runes.  The
  first argument is the field being read.\<close>

function FieldsFrom :: "string \<Rightarrow> string \<Rightarrow> string list" where
  "FieldsFrom cur s =
     (if s = [] then (if cur = [] then [] else [cur])
      else if spaceLen s \<noteq> 0
        then (if cur = [] then [] else [cur]) @ FieldsFrom [] (drop (spaceLen s) s)
        else FieldsFrom (cur @ [hd s]) (tl s))"
  by pat_completeness auto
termination
proof (relation "measure (\<lambda>(cur, s). length s)")
  show "wf (measure (\<lambda>(cur, s). length s))" by simp
next
  fix cur s :: string
  assume "s \<noteq> []" "spaceLen s \<noteq> 0"
  then show "(([], drop (spaceLen s) s), (cur, s)) \<in> measure (\<lambda>(cur, s). length s)" by simp
next
  fix cur s :: string
  assume "s \<noteq> []"
  then show "((cur @ [hd s], tl s), (cur, s)) \<in> measure (\<lambda>(cur, s). length s)" by simp
qed

declare FieldsFrom.simps [simp del]

definition Fields :: "string \<Rightarrow> string list" where
  "Fields s = FieldsFrom [] s"

text \<open>\<^verbatim>\<open>strings.ToLower(s)\<close>: a string of ASCII bytes is lower-cased byte by byte; any other
  string is mapped rune by rune through the Unicode case tables, which are not part of this
  development and are taken as the parameter \<open>unicodeLower\<close>.\<close>

definition isASCII :: "string \<Rightarrow> bool" where
  "isASCII s = list_all (\<lambda>c. (of_char c :: nat) < 128) s"

definition lowerByte :: "char \<Rightarrow> char" where
  "lowerByte c =
     (if 65 \<le> (of_char c :: nat) \<and> (of_char c :: nat) \<le> 90
      then char_of ((of_char c :: nat) + 32) else c)"

definition ToLower :: "(string \<Rightarrow> string) \<Rightarrow> string \<Rightarrow> string" where
  "ToLower unicodeLower s = (if isASCII s then map lowerByte s else unicodeLower s)"

text \<open>\<^verbatim>\<open>strconv.Atoi(s)\<close> for a 64-bit \<^verbatim>\<open>int\<close>: an optional sign, then one or more decimal
  digits, and the value must fit; \<open>None\<close> stands for every non-nil error.\<close>

definition isDigit :: "char \<Rightarrow> bool" where
  "isDigit c = (48 \<le> (of_char c :: nat) \<and> (of_char c :: nat) \<le> 57)"

fun digitsValue :: "int \<Rightarrow> string \<Rightarrow> int" where
  "digitsValue n [] = n"
| "digitsValue n (c # cs) = digitsValue (n * 10 + (int (of_char c) - 48)) cs"

definition Atoi :: "string \<Rightarrow> int option" where
  "Atoi s =
     (let neg = (s \<noteq> [] \<and> hd s = CHR ''-'');
          ds = (if s \<noteq> [] \<and> (hd s = CHR ''+'' \<or> hd s = CHR ''-'') then tl s else s)
      in if ds = [] \<or> \<not> list_all isDigit ds then None
         else let v = digitsValue 0 ds; n = (if neg then - v else v)
              in if - (2 ^ 63) \<le> n \<and> n \<le> 2 ^ 63 - 1 then Some n else None)"

section \<open>Document nodes\<close>

text \<open>
  \<^verbatim>\<open>html.Node\<close> of golang.org/x/net/html: the node's own fields and its children in document
  order.  The scraper only reads the tree.  Of package \<^verbatim>\<open>atom\<close> the source names \<^verbatim>\<open>atom.Td\<close>
  and \<^verbatim>\<open>atom.Tr\<close>; every other value of \<^verbatim>\<open>DataAtom\<close> (0 for an unknown tag or a node
  that is no element) is an \<open>OtherAtom\<close>.
\<close>

datatype NodeType = ErrorNode | TextNode | DocumentNode | ElementNode | CommentNode | DoctypeNode

datatype Atom = Td | Tr | OtherAtom nat

record Attribute =
  Namespace :: string
  Key :: string
  Val :: string

datatype Node =
  Node (Type: NodeType) (DataAtom: Atom) (Data: string) (Attr: "Attribute list")
    (children: "Node list")

text \<open>
  A \<^verbatim>\<open>*html.Node\<close> that is followed upwards or sideways (\<^verbatim>\<open>Parent\<close>, \<^verbatim>\<open>NextSibling\<close>) is a
  position in the document: the subtree it points to together with the way back to the
  root, each step of which records the parent's own fields, the siblings to the left
  (nearest first) and the siblings to the right.  A nil pointer is \<open>None\<close>.
\<close>

datatype Crumb =
  Crumb NodeType Atom string "Attribute list" (lefts: "Node list") (rights: "Node list")

datatype Loc = Loc (focus: Node) (crumbs: "Crumb list")

fun Parent :: "Loc \<Rightarrow> Loc option" where
  "Parent (Loc n []) = None"
| "Parent (Loc n (Crumb t a d as ls rs # up)) = Some (Loc (Node t a d as (rev ls @ n # rs)) up)"

fun FirstChild :: "Loc \<Rightarrow> Loc option" where
  "FirstChild (Loc (Node t a d as []) up) = None"
| "FirstChild (Loc (Node t a d as (c # cs)) up) = Some (Loc c (Crumb t a d as [] cs # up))"

fun NextSibling :: "Loc \<Rightarrow> Loc option" where
  "NextSibling (Loc n []) = None"
| "NextSibling (Loc n (Crumb t a d as ls [] # up)) = None"
| "NextSibling (Loc n (Crumb t a d as ls (r # rs) # up)) =
     Some (Loc r (Crumb t a d as (n # ls) rs # up))"

section \<open>The scraper (aws.go)\<close>

record 'f InstanceType =
  Name :: string
  CPUs :: int
  Memory :: 'f
  Storage :: string
  NetworkSpec :: string
  Processor :: string
  ClockSpeed :: 'f
  IntelAVX :: bool
  IntelAVX2 :: bool
  IntelTurbo :: bool
  EBSOPT :: bool
  EnhancedNetworking :: bool

text \<open>
  The errors of the scraper, one constructor for each \<^verbatim>\<open>fmt.Errorf\<close> of the source, holding
  what the format string is filled with:
  \<^item> \<open>ColumnCountMismatch n\<close>: \<^verbatim>\<open>"expected 12 columns, got %d"\<close> with \<^verbatim>\<open>len(cols)\<close>;
  \<^item> \<open>NumericParseError f t\<close>: \<^verbatim>\<open>"expected number for f, got '%s'"\<close> with the text \<open>t\<close>;
  \<^item> \<open>BadStatus s\<close>: \<^verbatim>\<open>"bad response from AWS: %s"\<close> with \<^verbatim>\<open>resp.Status\<close>;
  \<^item> \<open>AnchorNotFound\<close>: \<^verbatim>\<open>"no node with id 'instance-type-matrix'"\<close>;
  \<^item> \<open>SectionHeaderNotFound\<close>: \<^verbatim>\<open>"malformed HTML: title-wrapper not found"\<close>;
  \<^item> \<open>TableWrapperNotFound\<close>: \<^verbatim>\<open>"malformed HTML: table-wrapper not found"\<close>;
  \<^item> \<open>TableTooSmall\<close>: \<^verbatim>\<open>"malformed HTML: could not find table"\<close>;
  \<^item> \<open>LibraryError e\<close>: an error of \<^verbatim>\<open>client.Get\<close> or \<^verbatim>\<open>html.Parse\<close>, returned as it is.
\<close>

datatype 'e error =
    ColumnCountMismatch nat
  | NumericParseError string string
  | BadStatus string
  | AnchorNotFound
  | SectionHeaderNotFound
  | TableWrapperNotFound
  | TableTooSmall
  | LibraryError 'e

fun attr :: "Node \<Rightarrow> string \<Rightarrow> string" and attrLoop :: "Attribute list \<Rightarrow> string \<Rightarrow> string" where
  "attr n key = attrLoop (Attr n) key"
| "attrLoop [] key = []"
| "attrLoop (a # as) key = (if Key a = key then Val a else attrLoop as key)"

text \<open>\<^verbatim>\<open>findAll\<close>; \<open>findAllLoop\<close> is its loop over the children, with \<^verbatim>\<open>matched\<close> as
  third argument.\<close>

fun findAll :: "Node \<Rightarrow> (Node \<Rightarrow> bool) \<Rightarrow> Node list"
  and findAllLoop :: "Node list \<Rightarrow> (Node \<Rightarrow> bool) \<Rightarrow> Node list \<Rightarrow> Node list" where
  "findAll (Node t a d as cs) matcher =
     (if matcher (Node t a d as cs) then [Node t a d as cs]
      else findAllLoop cs matcher [])"
| "findAllLoop [] matcher matched = matched"
| "findAllLoop (c # cs) matcher matched = findAllLoop cs matcher (matched @ findAll c matcher)"

definition byTag :: "Atom \<Rightarrow> Node \<Rightarrow> bool" where
  "byTag a = (\<lambda>n. DataAtom n = a)"

definition text' :: "Node \<Rightarrow> string" where
  "text' n =
     (let textNodes = findAll n (\<lambda>n. Type n = TextNode);
          parts = map Data textNodes
      in TrimSpace (Join parts '' ''))"

text \<open>\<^verbatim>\<open>parseRow\<close>.  \<^verbatim>\<open>strconv.ParseFloat(s, 64)\<close> is the parameter \<open>parseFloat\<close>, \<open>None\<close> for a
  non-nil error; \<open>'f\<close> is the type of 64-bit floating point numbers.\<close>

definition parseRow ::
  "(string \<Rightarrow> string) \<Rightarrow> (string \<Rightarrow> 'f option) \<Rightarrow> Node \<Rightarrow> 'e error + 'f InstanceType" where
  "parseRow unicodeLower parseFloat row =
     (let cols = findAll row (byTag Td) in
      if length cols \<noteq> 12 then Inl (ColumnCountMismatch (length cols))
      else
        let yesNo = (\<lambda>col. ToLower unicodeLower (text' col) = ''yes'') in
        case Atoi (text' (cols ! 1)) of
          None \<Rightarrow> Inl (NumericParseError ''CPUs'' (text' (cols ! 1)))
        | Some cpus \<Rightarrow>
           (case parseFloat (text' (cols ! 2)) of
              None \<Rightarrow> Inl (NumericParseError ''Memory'' (text' (cols ! 2)))
            | Some memory \<Rightarrow>
               (case parseFloat (text' (cols ! 6)) of
                  None \<Rightarrow> Inl (NumericParseError ''Memory'' (text' (cols ! 2)))
                | Some clockSpeed \<Rightarrow>
                    Inr \<lparr> Name = text' (cols ! 0),
                          CPUs = cpus,
                          Memory = memory,
                          Storage = text' (cols ! 3),
                          NetworkSpec = text' (cols ! 4),
                          Processor = text' (cols ! 5),
                          ClockSpeed = clockSpeed,
                          IntelAVX = yesNo (cols ! 7),
                          IntelAVX2 = yesNo (cols ! 8),
                          IntelTurbo = yesNo (cols ! 9),
                          EBSOPT = yesNo (cols ! 10),
                          EnhancedNetworking = yesNo (cols ! 11) \<rparr>)))"

text \<open>The closure \<^verbatim>\<open>findMatrix\<close> of \<^verbatim>\<open>InstanceTypes\<close>; \<open>findMatrixLoop\<close> is its loop, whose
  argument is the loop variable \<^verbatim>\<open>c\<close>.\<close>

definition rightSiblings :: "Loc \<Rightarrow> Node list" where
  "rightSiblings l = (case crumbs l of [] \<Rightarrow> [] | cr # up \<Rightarrow> rights cr)"

lemma FirstChild_size:
  "FirstChild l = Some c \<Longrightarrow> size (focus c) + size_list size (rightSiblings c) < size (focus l)"
  by (cases l rule: FirstChild.cases) (auto simp: rightSiblings_def)

lemma NextSibling_size:
  "NextSibling l = Some s \<Longrightarrow>
     size (focus s) + size_list size (rightSiblings s) < size_list size (rightSiblings l)"
  by (cases l rule: NextSibling.cases) (auto simp: rightSiblings_def)

function findMatrix :: "Loc \<Rightarrow> Loc option" and findMatrixLoop :: "Loc option \<Rightarrow> Loc option" where
  "findMatrix node =
     (if attr (focus node) ''id'' = ''instance-type-matrix'' then Some node
      else findMatrixLoop (FirstChild node))"
| "findMatrixLoop None = None"
| "findMatrixLoop (Some c) =
     (case findMatrix c of
        Some n \<Rightarrow> Some n
      | None \<Rightarrow> findMatrixLoop (NextSibling c))"
  by pat_completeness auto
termination
proof (relation "measure (\<lambda>x. case x of
         Inl node \<Rightarrow> 2 * size (focus node)
       | Inr None \<Rightarrow> 0
       | Inr (Some c) \<Rightarrow> 2 * (size (focus c) + size_list size (rightSiblings c)) + 1)")
  show "wf (measure (\<lambda>x. case x of
         Inl node \<Rightarrow> 2 * size (focus node)
       | Inr None \<Rightarrow> 0
       | Inr (Some c) \<Rightarrow> 2 * (size (focus c) + size_list size (rightSiblings c)) + 1))"
    by simp
next
  fix node :: Loc
  show "(Inr (FirstChild node), Inl node) \<in> measure (\<lambda>x. case x of
         Inl node \<Rightarrow> 2 * size (focus node)
       | Inr None \<Rightarrow> 0
       | Inr (Some c) \<Rightarrow> 2 * (size (focus c) + size_list size (rightSiblings c)) + 1)"
  proof (cases "FirstChild node")
    case None
    then show ?thesis by (cases "focus node") simp
  next
    case (Some c)
    with FirstChild_size [OF Some] show ?thesis by simp
  qed
next
  fix c :: Loc
  show "(Inl c, Inr (Some c)) \<in> measure (\<lambda>x. case x of
         Inl node \<Rightarrow> 2 * size (focus node)
       | Inr None \<Rightarrow> 0
       | Inr (Some c) \<Rightarrow> 2 * (size (focus c) + size_list size (rightSiblings c)) + 1)"
    by simp
next
  fix c :: Loc
  show "(Inr (NextSibling c), Inr (Some c)) \<in> measure (\<lambda>x. case x of
         Inl node \<Rightarrow> 2 * size (focus node)
       | Inr None \<Rightarrow> 0
       | Inr (Some c) \<Rightarrow> 2 * (size (focus c) + size_list size (rightSiblings c)) + 1)"
  proof (cases "NextSibling c")
    case None
    then show ?thesis by simp
  next
    case (Some s)
    with NextSibling_size [OF Some] show ?thesis by simp
  qed
qed

text \<open>The closure \<^verbatim>\<open>contains\<close> of \<^verbatim>\<open>InstanceTypes\<close>.\<close>

fun contains :: "string list \<Rightarrow> string \<Rightarrow> bool" where
  "contains [] ele = False"
| "contains (s # sli) ele = (if s = ele then True else contains sli ele)"

text \<open>The two loops of \<^verbatim>\<open>InstanceTypes\<close> that look for the section header and for the table
  wrapper.  The argument is the loop variable (\<^verbatim>\<open>section\<close>, \<^verbatim>\<open>next\<close>), the result its value
  when the loop is left.\<close>

lemma Parent_crumbs: "Parent l = Some p \<Longrightarrow> length (crumbs p) < length (crumbs l)"
  by (cases l rule: Parent.cases) auto

lemma NextSibling_rights:
  "NextSibling l = Some s \<Longrightarrow> length (rightSiblings s) < length (rightSiblings l)"
  by (cases l rule: NextSibling.cases) (auto simp: rightSiblings_def)

function sectionLoop :: "Loc option \<Rightarrow> Loc option" where
  "sectionLoop None = None"
| "sectionLoop (Some section) =
     (let classes = Fields (attr (focus section) ''class'') in
      if contains classes ''section'' \<and> contains classes ''title-wrapper'' then Some section
      else sectionLoop (Parent section))"
  by pat_completeness auto
termination
proof (relation "measure (\<lambda>x. case x of None \<Rightarrow> 0 | Some l \<Rightarrow> Suc (length (crumbs l)))")
  show "wf (measure (\<lambda>x. case x of None \<Rightarrow> 0 | Some l \<Rightarrow> Suc (length (crumbs l))))" by simp
next
  fix l :: Loc and classes :: "string list"
  show "(Parent l, Some l)
          \<in> measure (\<lambda>x. case x of None \<Rightarrow> 0 | Some l \<Rightarrow> Suc (length (crumbs l)))"
    by (cases "Parent l") (auto dest: Parent_crumbs)
qed

function nextLoop :: "Loc option \<Rightarrow> Loc option" where
  "nextLoop None = None"
| "nextLoop (Some next) =
     (let classes = Fields (attr (focus next) ''class'') in
      if contains classes ''section'' \<and> contains classes ''table-wrapper'' then Some next
      else nextLoop (NextSibling next))"
  by pat_completeness auto
termination
proof (relation "measure (\<lambda>x. case x of None \<Rightarrow> 0 | Some l \<Rightarrow> Suc (length (rightSiblings l)))")
  show "wf (measure (\<lambda>x. case x of None \<Rightarrow> 0 | Some l \<Rightarrow> Suc (length (rightSiblings l))))"
    by simp
next
  fix l :: Loc and classes :: "string list"
  show "(NextSibling l, Some l)
          \<in> measure (\<lambda>x. case x of None \<Rightarrow> 0 | Some l \<Rightarrow> Suc (length (rightSiblings l)))"
    by (cases "NextSibling l") (auto dest: NextSibling_rights)
qed

text \<open>Lines 126 to 172 of \<^verbatim>\<open>InstanceTypes\<close>: from the root of the parsed document to the
  table wrapper \<^verbatim>\<open>next\<close>.\<close>

definition locateSection :: "Node \<Rightarrow> 'e error + Loc" where
  "locateSection root =
     (case findMatrix (Loc root []) of
        None \<Rightarrow> Inl AnchorNotFound
      | Some matrixHeader \<Rightarrow>
         (case sectionLoop (Parent matrixHeader) of
            None \<Rightarrow> Inl SectionHeaderNotFound
          | Some section \<Rightarrow>
             (case nextLoop (NextSibling section) of
                None \<Rightarrow> Inl TableWrapperNotFound
              | Some next \<Rightarrow> Inr next)))"

text \<open>The last loop of \<^verbatim>\<open>InstanceTypes\<close>: \<open>types\<close> holds the records of the rows parsed so
  far, \<open>rows\<close> the rows still to parse.\<close>

fun rowsLoop ::
  "(string \<Rightarrow> string) \<Rightarrow> (string \<Rightarrow> 'f option) \<Rightarrow> 'f InstanceType list \<Rightarrow> Node list
     \<Rightarrow> 'e error + 'f InstanceType list" where
  "rowsLoop unicodeLower parseFloat types [] = Inr types"
| "rowsLoop unicodeLower parseFloat types (row # rows) =
     (case parseRow unicodeLower parseFloat row of
        Inl err \<Rightarrow> Inl err
      | Inr t \<Rightarrow> rowsLoop unicodeLower parseFloat (types @ [t]) rows)"

text \<open>
  \<^verbatim>\<open>InstanceTypes\<close>.  An \<^verbatim>\<open>*http.Client\<close> is what its \<^verbatim>\<open>Get\<close> answers for a URL: an error or a
  response; \<^verbatim>\<open>html.Parse\<close> is the parameter \<open>htmlParse\<close>, from the response body to an error
  or the root of the document.  The result is paired with the calls made to the two, in
  the order they were made.
\<close>

record 'b Response =
  StatusCode :: int
  Status :: string
  Body :: 'b

type_synonym ('e, 'b) Client = "string \<Rightarrow> 'e + 'b Response"

datatype event = HttpGet string | HtmlParse

definition instanceTypeURL :: string where
  "instanceTypeURL = ''http://aws.amazon.com/ec2/instance-types/''"

definition StatusOK :: int where
  "StatusOK = 200"

definition InstanceTypes ::
  "('e, 'b) Client \<Rightarrow> ('b \<Rightarrow> 'e + Node) \<Rightarrow> (string \<Rightarrow> string) \<Rightarrow> (string \<Rightarrow> 'f option)
     \<Rightarrow> ('e, 'b) Client option \<Rightarrow> event list \<times> ('e error + 'f InstanceType list)" where
  "InstanceTypes DefaultClient htmlParse unicodeLower parseFloat client =
     (let client = (case client of None \<Rightarrow> DefaultClient | Some c \<Rightarrow> c) in
      case client instanceTypeURL of
        Inl err \<Rightarrow> ([HttpGet instanceTypeURL], Inl (LibraryError err))
      | Inr resp \<Rightarrow>
          if StatusCode resp \<noteq> StatusOK
          then ([HttpGet instanceTypeURL], Inl (BadStatus (Status resp)))
          else
            (case htmlParse (Body resp) of
               Inl err \<Rightarrow> ([HttpGet instanceTypeURL, HtmlParse], Inl (LibraryError err))
             | Inr root \<Rightarrow>
                ([HttpGet instanceTypeURL, HtmlParse],
                 (case locateSection root of
                    Inl err \<Rightarrow> Inl err
                  | Inr next \<Rightarrow>
                     (let rows = findAll (focus next) (byTag Tr) in
                      if length rows < 3 then Inl TableTooSmall
                      else rowsLoop unicodeLower parseFloat [] (tl rows))))))"

section \<open>Notions the properties are stated with\<close>

text \<open>The nodes of a subtree in preorder (document order); and the same walk with every
  node paired with its proper ancestors inside the subtree, nearest first.\<close>

fun preorder :: "Node \<Rightarrow> Node list" where
  "preorder (Node t a d as cs) = Node t a d as cs # concat (map preorder cs)"

fun preorderAnc :: "Node list \<Rightarrow> Node \<Rightarrow> (Node list \<times> Node) list" where
  "preorderAnc anc (Node t a d as cs) =
     (anc, Node t a d as cs) # concat (map (preorderAnc (Node t a d as cs # anc)) cs)"

text \<open>A node is an outermost match of \<open>p\<close> when it satisfies \<open>p\<close> and none of its proper
  ancestors inside the searched subtree does.\<close>

definition outermost :: "(Node \<Rightarrow> bool) \<Rightarrow> Node list \<times> Node \<Rightarrow> bool" where
  "outermost p = (\<lambda>(anc, m). p m \<and> \<not> list_ex p anc)"

text \<open>The text of a node as the specification describes it: the contents of the text nodes
  of the subtree in document order, joined by single spaces, trimmed, and with every
  internal run of white space collapsed to a single space.\<close>

definition normalizedText :: "Node \<Rightarrow> string" where
  "normalizedText n =
     Join (Fields (Join (map Data (filter (\<lambda>m. Type m = TextNode) (preorder n))) '' '')) '' ''"

text \<open>The proper ancestors of a position, nearest first, and the siblings after it, in
  document order.\<close>

function ancestors :: "Loc \<Rightarrow> Loc list" where
  "ancestors l = (case Parent l of None \<Rightarrow> [] | Some p \<Rightarrow> p # ancestors p)"
  by pat_completeness auto
termination
  by (relation "measure (\<lambda>l. length (crumbs l))") (auto dest: Parent_crumbs)

function followingSiblings :: "Loc \<Rightarrow> Loc list" where
  "followingSiblings l = (case NextSibling l of None \<Rightarrow> [] | Some s \<Rightarrow> s # followingSiblings s)"
  by pat_completeness auto
termination
  by (relation "measure (\<lambda>l. length (rightSiblings l))") (auto dest: NextSibling_rights)

declare ancestors.simps [simp del] followingSiblings.simps [simp del]

text \<open>The class tokens of a node: its class attribute split at white space.  A token is
  in the set when it is equal to one of them.\<close>

definition classTokens :: "Node \<Rightarrow> string list" where
  "classTokens n = Fields (attr n ''class'')"

definition isSectionHeader :: "Loc \<Rightarrow> bool" where
  "isSectionHeader l =
     (''section'' \<in> set (classTokens (focus l)) \<and> ''title-wrapper'' \<in> set (classTokens (focus l)))"

definition isTableWrapper :: "Loc \<Rightarrow> bool" where
  "isTableWrapper l =
     (''section'' \<in> set (classTokens (focus l)) \<and> ''table-wrapper'' \<in> set (classTokens (focus l)))"

text \<open>The section locator as the specification describes it: the walk upwards starts at
  the anchor itself.\<close>

definition locateSectionSpec :: "Node \<Rightarrow> 'e error + Loc" where
  "locateSectionSpec root =
     (case findMatrix (Loc root []) of
        None \<Rightarrow> Inl AnchorNotFound
      | Some anchor \<Rightarrow>
         (case find isSectionHeader (anchor # ancestors anchor) of
            None \<Rightarrow> Inl SectionHeaderNotFound
          | Some header \<Rightarrow>
             (case find isTableWrapper (followingSiblings header) of
                None \<Rightarrow> Inl TableWrapperNotFound
              | Some next \<Rightarrow> Inr next)))"

text \<open>A record is the complete record of a row when the row has exactly 12 cells and
  every field of the record comes from its cell: the texts of cells 0, 3, 4 and 5, the
  numbers that cells 1, 2 and 6 parse to, and for cells 7 to 11 whether the lower-cased
  text is "yes".\<close>

definition recordOf ::
  "(string \<Rightarrow> string) \<Rightarrow> (string \<Rightarrow> 'f option) \<Rightarrow> Node \<Rightarrow> 'f InstanceType \<Rightarrow> bool" where
  "recordOf unicodeLower parseFloat row t =
     (let cols = findAll row (byTag Td) in
      length cols = 12 \<and>
      Name t = text' (cols ! 0) \<and>
      Atoi (text' (cols ! 1)) = Some (CPUs t) \<and>
      parseFloat (text' (cols ! 2)) = Some (Memory t) \<and>
      Storage t = text' (cols ! 3) \<and>
      NetworkSpec t = text' (cols ! 4) \<and>
      Processor t = text' (cols ! 5) \<and>
      parseFloat (text' (cols ! 6)) = Some (ClockSpeed t) \<and>
      IntelAVX t = (ToLower unicodeLower (text' (cols ! 7)) = ''yes'') \<and>
      IntelAVX2 t = (ToLower unicodeLower (text' (cols ! 8)) = ''yes'') \<and>
      IntelTurbo t = (ToLower unicodeLower (text' (cols ! 9)) = ''yes'') \<and>
      EBSOPT t = (ToLower unicodeLower (text' (cols ! 10)) = ''yes'') \<and>
      EnhancedNetworking t = (ToLower unicodeLower (text' (cols ! 11)) = ''yes''))"

section \<open>Fixtures\<close>

definition textNode :: "string \<Rightarrow> Node" where
  "textNode s = Node TextNode (OtherAtom 0) s [] []"

definition element :: "Atom \<Rightarrow> string \<Rightarrow> Attribute list \<Rightarrow> Node list \<Rightarrow> Node" where
  "element a name as cs = Node ElementNode a name as cs"

definition cell :: "string \<Rightarrow> Node" where
  "cell s = element Td ''td'' [] [textNode s]"

text \<open>A row whose only cell holds a table with a row of its own.\<close>

definition innerRow :: Node where
  "innerRow = element Tr ''tr'' [] [cell ''inner'']"

definition nestedRow :: Node where
  "nestedRow =
     element Tr ''tr'' [] [element Td ''td'' [] [element (OtherAtom 1) ''table'' [] [innerRow]]]"

text \<open>Rows of the instance type matrix.  \<open>fixtureParseFloat\<close> stands for
  \<^verbatim>\<open>strconv.ParseFloat\<close> on the texts of the fixtures: it gives the number as decimal
  mantissa and exponent, and rejects every other text, as \<^verbatim>\<open>ParseFloat\<close> rejects "n/a".\<close>

definition fixtureParseFloat :: "string \<Rightarrow> (int \<times> int) option" where
  "fixtureParseFloat s =
     (if s = ''3.75'' then Some (375, - 2)
      else if s = ''2.5'' then Some (25, - 1)
      else if s = ''7.5'' then Some (75, - 1)
      else None)"

definition goodRow :: Node where
  "goodRow = element Tr ''tr'' []
     [cell ''m3.medium'', cell ''1'', cell ''3.75'', cell ''1 x 4 SSD'', cell ''Moderate'',
      cell ''Intel Xeon E5-2670 v2'', cell ''2.5'', cell ''Yes'', cell ''-'', cell ''YES'',
      element Td ''td'' [] [], cell ''yes'']"

definition goodRecord :: "(int \<times> int) InstanceType" where
  "goodRecord =
     \<lparr> Name = ''m3.medium'', CPUs = 1, Memory = (375, - 2), Storage = ''1 x 4 SSD'',
       NetworkSpec = ''Moderate'', Processor = ''Intel Xeon E5-2670 v2'',
       ClockSpeed = (25, - 1), IntelAVX = True, IntelAVX2 = False, IntelTurbo = True,
       EBSOPT = False, EnhancedNetworking = True \<rparr>"

definition largeRow :: Node where
  "largeRow = element Tr ''tr'' []
     [cell ''m3.large'', cell ''2'', cell ''7.5'', cell ''1 x 32 SSD'', cell ''Moderate'',
      cell ''Intel Xeon E5-2670 v2'', cell ''2.5'', cell ''Yes'', cell ''-'', cell ''Yes'',
      cell ''-'', cell ''-'']"

definition largeRecord :: "(int \<times> int) InstanceType" where
  "largeRecord =
     \<lparr> Name = ''m3.large'', CPUs = 2, Memory = (75, - 1), Storage = ''1 x 32 SSD'',
       NetworkSpec = ''Moderate'', Processor = ''Intel Xeon E5-2670 v2'',
       ClockSpeed = (25, - 1), IntelAVX = True, IntelAVX2 = False, IntelTurbo = True,
       EBSOPT = False, EnhancedNetworking = False \<rparr>"

definition clockRow :: Node where
  "clockRow = element Tr ''tr'' []
     [cell ''m3.medium'', cell ''1'', cell ''3.75'', cell ''1 x 4 SSD'', cell ''Moderate'',
      cell ''Intel Xeon E5-2670 v2'', cell ''n/a'', cell ''Yes'', cell ''-'', cell ''YES'',
      element Td ''td'' [] [], cell ''yes'']"

definition shortRow :: Node where
  "shortRow = element Tr ''tr'' [] [cell ''m3.medium'', cell ''1'']"

text \<open>A cell whose content is split over an inline element, with irregular white space.\<close>

definition spacedCell :: Node where
  "spacedCell =
     element Td ''td'' []
       [textNode (''  two  spaces'' @ [CHR 0x0A] @ ''newline ''),
        element (OtherAtom 2) ''b'' [] [textNode '' bold'']]"

text \<open>Documents.  In \<open>matrixDoc\<close> the anchor is a heading inside the section header, and
  the table wrapper follows the header; in \<open>anchorHeaderDoc\<close> the anchor itself carries
  the classes of a section header, and no ancestor does.\<close>

definition attribute :: "string \<Rightarrow> string \<Rightarrow> Attribute" where
  "attribute k v = \<lparr> Namespace = [], Key = k, Val = v \<rparr>"

definition headerRow :: Node where
  "headerRow = element Tr ''tr'' []
     [element (OtherAtom 3) ''th'' [] [textNode ''Instance Type''],
      element (OtherAtom 3) ''th'' [] [textNode ''vCPU'']]"

definition tableWrapper :: "Node list \<Rightarrow> Node" where
  "tableWrapper rows =
     element (OtherAtom 4) ''div'' [attribute ''class'' ''section  table-wrapper'']
       [element (OtherAtom 1) ''table'' [] [element (OtherAtom 5) ''tbody'' [] rows]]"

definition titleWrapper :: Node where
  "titleWrapper =
     element (OtherAtom 4) ''div'' [attribute ''class'' ''section title-wrapper'']
       [element (OtherAtom 6) ''h2'' [attribute ''id'' ''instance-type-matrix'']
          [textNode ''Instance Types Matrix'']]"

definition document :: "Node list \<Rightarrow> Node" where
  "document rows =
     Node DocumentNode (OtherAtom 0) [] []
       [element (OtherAtom 7) ''html'' []
          [element (OtherAtom 8) ''body'' []
             [textNode [CHR 0x0A], titleWrapper, textNode [CHR 0x0A], tableWrapper rows]]]"

text \<open>The position of the table wrapper in \<open>document rows\<close>.\<close>

definition tableLoc :: "Node list \<Rightarrow> Loc" where
  "tableLoc rows =
     Loc (tableWrapper rows)
       [Crumb ElementNode (OtherAtom 8) ''body'' []
          [textNode [CHR 0x0A], titleWrapper, textNode [CHR 0x0A]] [],
        Crumb ElementNode (OtherAtom 7) ''html'' [] [] [],
        Crumb DocumentNode (OtherAtom 0) [] [] [] []]"

definition matrixDoc :: Node where
  "matrixDoc = document [headerRow, goodRow, largeRow]"

definition failingDoc :: Node where
  "failingDoc = document [headerRow, goodRow, clockRow]"

definition smallDoc :: Node where
  "smallDoc = document [headerRow, shortRow]"

text \<open>A row whose first cell is empty, and a document that holds it.\<close>

definition namelessRow :: Node where
  "namelessRow = element Tr ''tr'' []
     [element Td ''td'' [] [], cell ''1'', cell ''3.75'', cell ''1 x 4 SSD'', cell ''Moderate'',
      cell ''Intel Xeon E5-2670 v2'', cell ''2.5'', cell ''Yes'', cell ''-'', cell ''Yes'',
      cell ''-'', cell ''-'']"

definition namelessRecord :: "(int \<times> int) InstanceType" where
  "namelessRecord =
     \<lparr> Name = [], CPUs = 1, Memory = (375, - 2), Storage = ''1 x 4 SSD'',
       NetworkSpec = ''Moderate'', Processor = ''Intel Xeon E5-2670 v2'',
       ClockSpeed = (25, - 1), IntelAVX = True, IntelAVX2 = False, IntelTurbo = True,
       EBSOPT = False, EnhancedNetworking = False \<rparr>"

definition namelessDoc :: Node where
  "namelessDoc = document [headerRow, namelessRow, largeRow]"

text \<open>A client that answers every request with the given status and body, and a parser
  for bodies that are documents already.\<close>

definition serve :: "int \<Rightarrow> string \<Rightarrow> Node \<Rightarrow> (unit, Node) Client" where
  "serve code status doc = (\<lambda>url. Inr \<lparr> StatusCode = code, Status = status, Body = doc \<rparr>)"

definition parsed :: "Node \<Rightarrow> unit + Node" where
  "parsed body = Inr body"

definition anchorHeaderDoc :: Node where
  "anchorHeaderDoc =
     Node DocumentNode (OtherAtom 0) [] []
       [element (OtherAtom 6) ''h2''
          [attribute ''id'' ''instance-type-matrix'', attribute ''class'' ''section title-wrapper'']
          [],
        tableWrapper []]"

definition bareNode :: Node where
  "bareNode = element (OtherAtom 4) ''div'' [] []"

definition emptyAttrNode :: Node where
  "emptyAttrNode =
     element (OtherAtom 4) ''div'' [attribute ''id'' [], attribute ''class'' [], attribute ''id'' ''x''] []"

section \<open>Tree search\<close>

lemma findAllLoop_concat:
  "findAllLoop cs p acc = acc @ concat (map (\<lambda>c. findAll c p) cs)"
  by (induction cs arbitrary: acc) simp_all

lemma findAll_unfold:
  "findAll n p = (if p n then [n] else concat (map (\<lambda>c. findAll c p) (children n)))"
  by (cases n) (simp add: findAllLoop_concat)

lemma preorderAnc_snd: "map snd (preorderAnc anc n) = preorder n"
proof (induction n arbitrary: anc)
  case (Node t a d as cs)
  have "concat (map (map snd \<circ> preorderAnc (Node t a d as cs # anc)) cs)
      = concat (map preorder cs)"
    by (intro arg_cong [where f = concat] map_cong refl) (simp add: Node.IH)
  then show ?case by (simp add: map_concat)
qed

lemma findAll_outermost:
  "(\<not> list_ex p anc \<longrightarrow> map snd (filter (outermost p) (preorderAnc anc n)) = findAll n p) \<and>
   (list_ex p anc \<longrightarrow> filter (outermost p) (preorderAnc anc n) = [])"
proof (induction n arbitrary: anc)
  case (Node t a d as cs)
  let ?n = "Node t a d as cs"
  show ?case
  proof (intro conjI impI)
    assume ex: "list_ex p anc"
    then have "list_ex p (?n # anc)" by simp
    then have "\<forall>c \<in> set cs. filter (outermost p) (preorderAnc (?n # anc) c) = []"
      using Node.IH by blast
    then have "concat (map (filter (outermost p) \<circ> preorderAnc (?n # anc)) cs) = []"
      by simp
    with ex show "filter (outermost p) (preorderAnc anc ?n) = []"
      by (simp add: filter_concat outermost_def)
  next
    assume nex: "\<not> list_ex p anc"
    show "map snd (filter (outermost p) (preorderAnc anc ?n)) = findAll ?n p"
    proof (cases "p ?n")
      case True
      then have "list_ex p (?n # anc)" by simp
      then have "\<forall>c \<in> set cs. filter (outermost p) (preorderAnc (?n # anc) c) = []"
        using Node.IH by blast
      then have "concat (map (filter (outermost p) \<circ> preorderAnc (?n # anc)) cs) = []"
        by simp
      with True nex show ?thesis
        by (simp add: filter_concat outermost_def)
    next
      case False
      with nex have "\<not> list_ex p (?n # anc)" by simp
      then have "\<forall>c \<in> set cs.
          map snd (filter (outermost p) (preorderAnc (?n # anc) c)) = findAll c p"
        using Node.IH by blast
      then have "concat (map (map snd \<circ> (filter (outermost p) \<circ> preorderAnc (?n # anc))) cs)
          = concat (map (\<lambda>c. findAll c p) cs)"
        by (intro arg_cong [where f = concat] map_cong refl) simp
      with False nex show ?thesis
        by (simp add: filter_concat map_concat findAllLoop_concat) (simp add: outermost_def)
    qed
  qed
qed

lemma findAll_leaves:
  "list_all (\<lambda>m. p m \<longrightarrow> children m = []) (preorder n) \<Longrightarrow> findAll n p = filter p (preorder n)"
proof (induction n)
  case (Node t a d as cs)
  let ?n = "Node t a d as cs"
  show ?case
  proof (cases "p ?n")
    case True
    with Node.prems have "cs = []" by simp
    with True show ?thesis by simp
  next
    case False
    have "\<forall>c \<in> set cs. findAll c p = filter p (preorder c)"
    proof
      fix c assume c: "c \<in> set cs"
      with Node.prems have "list_all (\<lambda>m. p m \<longrightarrow> children m = []) (preorder c)"
        by (auto simp: list_all_iff)
      with c show "findAll c p = filter p (preorder c)" by (rule Node.IH)
    qed
    then have "concat (map (\<lambda>c. findAll c p) cs) = concat (map (filter p \<circ> preorder) cs)"
      by (intro arg_cong [where f = concat] map_cong refl) simp
    with False show ?thesis by (simp add: filter_concat findAllLoop_concat)
  qed
qed

text \<open>
  C1, as the specification states it: \<open>findAll\<close> returns every node of the subtree that
  satisfies the predicate, in preorder, also a matching descendant of a matching node.
  The source returns a matching node at once, without looking below it: on a row that
  holds a table with a row of its own, the search for rows returns the outer row alone,
  although the inner row is in the subtree and satisfies the predicate.
\<close>

theorem findAll_all_matches_counterexample:
  "findAll nestedRow (byTag Tr) = [nestedRow] \<and>
   filter (byTag Tr) (preorder nestedRow) = [nestedRow, innerRow]"
  by (simp add: nestedRow_def innerRow_def element_def cell_def textNode_def byTag_def)

text \<open>
  C1, amended: \<open>findAll\<close> returns, in preorder, exactly the outermost matches: the nodes
  of the subtree that satisfy the predicate and have no proper ancestor inside the subtree
  satisfying it.  (The second conjunct says that the walk the first one filters is the
  preorder walk of the subtree.)
\<close>

theorem findAll_outermost_matches:
  "findAll n p = map snd (filter (outermost p) (preorderAnc [] n)) \<and>
   map snd (preorderAnc [] n) = preorder n"
  using findAll_outermost [of p "[]" n] by (simp add: preorderAnc_snd)

section \<open>Row parser\<close>

lemma goodRow_parses:
  "parseRow (\<lambda>s. s) fixtureParseFloat goodRow = (Inr goodRecord :: unit error + _)"
  by code_simp

lemma goodRow_cols:
  "text' (findAll goodRow (byTag Td) ! 7) = ''Yes'' \<and>
   text' (findAll goodRow (byTag Td) ! 8) = ''-'' \<and>
   text' (findAll goodRow (byTag Td) ! 9) = ''YES'' \<and>
   text' (findAll goodRow (byTag Td) ! 10) = [] \<and>
   text' (findAll goodRow (byTag Td) ! 11) = ''yes''"
  by code_simp

lemma clockRow_cols:
  "length (findAll clockRow (byTag Td)) = 12 \<and>
   text' (findAll clockRow (byTag Td) ! 1) = ''1'' \<and>
   text' (findAll clockRow (byTag Td) ! 2) = ''3.75'' \<and>
   text' (findAll clockRow (byTag Td) ! 6) = ''n/a''"
  by code_simp

text \<open>\<open>parseRow\<close> yields a record exactly when it is the complete record of the row.\<close>

lemma parseRow_recordOf:
  "(parseRow unicodeLower parseFloat row :: 'e error + 'f InstanceType) = Inr t
     \<longleftrightarrow> recordOf unicodeLower parseFloat row t"
proof
  assume "(parseRow unicodeLower parseFloat row :: 'e error + 'f InstanceType) = Inr t"
  then show "recordOf unicodeLower parseFloat row t"
    by (auto simp: parseRow_def recordOf_def Let_def split: if_splits option.splits)
next
  assume "recordOf unicodeLower parseFloat row t"
  then show "(parseRow unicodeLower parseFloat row :: 'e error + 'f InstanceType) = Inr t"
    by (simp add: parseRow_def recordOf_def Let_def)
qed

lemma rows_recordOf:
  "map (parseRow unicodeLower parseFloat) rows = (map Inr ts :: ('e error + 'f InstanceType) list)
     \<longleftrightarrow> list_all2 (recordOf unicodeLower parseFloat) rows ts"
proof (induction rows arbitrary: ts)
  case Nil
  then show ?case by auto
next
  case (Cons row rows)
  show ?case
  proof (cases ts)
    case Nil
    then show ?thesis by simp
  next
    case (Cons t ts')
    with Cons.IH [of ts'] show ?thesis
      by (simp add: parseRow_recordOf [where ?'e = 'e])
  qed
qed

text \<open>
  C6: \<open>parseRow\<close> fails with \<open>ColumnCountMismatch\<close>, carrying the number of cells found,
  whenever \<open>findAll\<close> with the predicate "tag is td" finds a number of cells other than 12
  in the row; so it yields a record only for a row with exactly 12 cells.
\<close>

theorem parseRow_column_count:
  "(length (findAll row (byTag Td)) \<noteq> 12 \<longrightarrow>
      (parseRow unicodeLower parseFloat row :: 'e error + 'f InstanceType)
        = Inl (ColumnCountMismatch (length (findAll row (byTag Td))))) \<and>
   (\<forall>t. (parseRow unicodeLower parseFloat row :: 'e error + 'f InstanceType) = Inr t
      \<longrightarrow> length (findAll row (byTag Td)) = 12)"
  by (auto simp: parseRow_def Let_def split: option.splits if_splits)

theorem parseRow_column_count_witness:
  "length (findAll shortRow (byTag Td)) = 2 \<and>
   parseRow (\<lambda>s. s) fixtureParseFloat shortRow = (Inl (ColumnCountMismatch 2) :: unit error + _) \<and>
   parseRow (\<lambda>s. s) fixtureParseFloat goodRow = (Inr goodRecord :: unit error + _) \<and>
   length (findAll goodRow (byTag Td)) = 12"
proof -
  have n: "length (findAll shortRow (byTag Td)) = 2" by code_simp
  have "parseRow (\<lambda>s. s) fixtureParseFloat shortRow
          = (Inl (ColumnCountMismatch (length (findAll shortRow (byTag Td)))) :: unit error + _)"
    using parseRow_column_count [where ?'e = unit, of shortRow "\<lambda>s. s" fixtureParseFloat] n
    by simp
  moreover have "length (findAll goodRow (byTag Td)) = 12"
    using parseRow_column_count [where ?'e = unit, of goodRow "\<lambda>s. s" fixtureParseFloat]
      goodRow_parses by blast
  ultimately show ?thesis using n goodRow_parses by simp
qed

text \<open>
  C7: in the record parsed from a row, each of the fields \<open>IntelAVX\<close>, \<open>IntelAVX2\<close>,
  \<open>IntelTurbo\<close>, \<open>EBSOPT\<close> and \<open>EnhancedNetworking\<close> is true if and only if the lower-cased
  extracted text of its cell (cells 7 to 11) is exactly "yes"; the empty text is not.
\<close>

theorem parseRow_booleans:
  assumes "(parseRow unicodeLower parseFloat row :: 'e error + 'f InstanceType) = Inr t"
  shows "IntelAVX t = (ToLower unicodeLower (text' (findAll row (byTag Td) ! 7)) = ''yes'') \<and>
         IntelAVX2 t = (ToLower unicodeLower (text' (findAll row (byTag Td) ! 8)) = ''yes'') \<and>
         IntelTurbo t = (ToLower unicodeLower (text' (findAll row (byTag Td) ! 9)) = ''yes'') \<and>
         EBSOPT t = (ToLower unicodeLower (text' (findAll row (byTag Td) ! 10)) = ''yes'') \<and>
         EnhancedNetworking t
           = (ToLower unicodeLower (text' (findAll row (byTag Td) ! 11)) = ''yes'') \<and>
         ToLower unicodeLower [] \<noteq> ''yes''"
proof -
  from assms have len: "length (findAll row (byTag Td)) = 12"
    by (auto simp: parseRow_def Let_def split: if_splits)
  have empty: "ToLower unicodeLower [] \<noteq> ''yes''"
    by (simp add: ToLower_def isASCII_def)
  from assms len show ?thesis
    by (auto simp: parseRow_def Let_def empty split: option.splits)
qed

theorem parseRow_booleans_witness:
  "parseRow (\<lambda>s. s) fixtureParseFloat goodRow = (Inr goodRecord :: unit error + _) \<and>
   IntelAVX goodRecord = (ToLower (\<lambda>s. s) ''Yes'' = ''yes'') \<and>
   IntelAVX2 goodRecord = (ToLower (\<lambda>s. s) ''-'' = ''yes'') \<and>
   IntelTurbo goodRecord = (ToLower (\<lambda>s. s) ''YES'' = ''yes'') \<and>
   EBSOPT goodRecord = (ToLower (\<lambda>s. s) [] = ''yes'') \<and>
   EnhancedNetworking goodRecord = (ToLower (\<lambda>s. s) ''yes'' = ''yes'') \<and>
   IntelAVX goodRecord \<and> \<not> IntelAVX2 goodRecord \<and> IntelTurbo goodRecord \<and>
   \<not> EBSOPT goodRecord \<and> EnhancedNetworking goodRecord"
proof -
  have "IntelAVX goodRecord \<and> \<not> IntelAVX2 goodRecord \<and> IntelTurbo goodRecord \<and>
        \<not> EBSOPT goodRecord \<and> EnhancedNetworking goodRecord"
    by (simp add: goodRecord_def)
  then show ?thesis
    using parseRow_booleans [where ?'e = unit, OF goodRow_parses] goodRow_cols goodRow_parses
    by simp
qed

text \<open>
  C2 asks that a \<open>ClockSpeed\<close> cell that is no number be reported under the name
  ClockSpeed with its own text.  The branch of the source for that failure repeats the
  message of the \<open>Memory\<close> branch: when the cells for \<open>CPUs\<close> and \<open>Memory\<close> parse and the
  one for \<open>ClockSpeed\<close> (cell 6) does not, the error names Memory and carries the text of
  the \<open>Memory\<close> cell (cell 2).
\<close>

theorem parseRow_ClockSpeed_error:
  assumes "length (findAll row (byTag Td)) = 12"
    and "Atoi (text' (findAll row (byTag Td) ! 1)) = Some cpus"
    and "parseFloat (text' (findAll row (byTag Td) ! 2)) = Some memory"
    and "parseFloat (text' (findAll row (byTag Td) ! 6)) = None"
  shows "(parseRow unicodeLower parseFloat row :: 'e error + 'f InstanceType)
           = Inl (NumericParseError ''Memory'' (text' (findAll row (byTag Td) ! 2)))"
  using assms by (simp add: parseRow_def Let_def)

theorem parseRow_ClockSpeed_error_witness:
  "text' (findAll clockRow (byTag Td) ! 6) = ''n/a'' \<and>
   fixtureParseFloat ''n/a'' = None \<and>
   parseRow (\<lambda>s. s) fixtureParseFloat clockRow
     = (Inl (NumericParseError ''Memory'' ''3.75'') :: unit error + _)"
proof -
  have cpus: "Atoi (text' (findAll clockRow (byTag Td) ! 1)) = Some 1"
    using clockRow_cols by (simp add: Atoi_def isDigit_def)
  have memory: "fixtureParseFloat (text' (findAll clockRow (byTag Td) ! 2)) = Some (375, - 2)"
    using clockRow_cols by (simp add: fixtureParseFloat_def)
  have clock: "fixtureParseFloat (text' (findAll clockRow (byTag Td) ! 6)) = None"
    using clockRow_cols by (simp add: fixtureParseFloat_def)
  have len: "length (findAll clockRow (byTag Td)) = 12"
    using clockRow_cols by simp
  have na: "fixtureParseFloat ''n/a'' = None"
    by (simp add: fixtureParseFloat_def)
  show ?thesis
    using parseRow_ClockSpeed_error [where ?'e = unit and unicodeLower = "\<lambda>s. s",
        OF len cpus memory clock] clockRow_cols na
    by simp
qed

section \<open>Text extraction\<close>

lemma find_SomeD: "find P xs = Some w \<Longrightarrow> w \<in> set xs \<and> P w"
  by (induction xs) (auto split: if_splits)

lemma spaceLen_pos:
  assumes "spaceLen s \<noteq> 0"
  shows "take (spaceLen s) s \<in> set White_Space"
proof (cases "find (\<lambda>w. take (length w) s = w) White_Space")
  case None
  with assms show ?thesis by (simp add: spaceLen_def)
next
  case (Some w)
  from find_SomeD [OF Some] have "w \<in> set White_Space" "take (length w) s = w" by simp_all
  moreover from Some have "spaceLen s = length w" by (simp add: spaceLen_def)
  ultimately show ?thesis by simp
qed

lemma spaceLenLast_pos:
  assumes "spaceLenLast s \<noteq> 0"
  shows "drop (length s - spaceLenLast s) s \<in> set White_Space"
proof (cases "find (\<lambda>w. length w \<le> length s \<and> drop (length s - length w) s = w) White_Space")
  case None
  with assms show ?thesis by (simp add: spaceLenLast_def)
next
  case (Some w)
  from find_SomeD [OF Some] have "w \<in> set White_Space" "drop (length s - length w) s = w"
    by simp_all
  moreover from Some have "spaceLenLast s = length w" by (simp add: spaceLenLast_def)
  ultimately show ?thesis by simp
qed

lemma spaceLen_zero_iff:
  "spaceLen s = 0 \<longleftrightarrow> (\<forall>w \<in> set White_Space. take (length w) s \<noteq> w)"
proof (cases "find (\<lambda>w. take (length w) s = w) White_Space")
  case None
  then have "\<forall>w \<in> set White_Space. take (length w) s \<noteq> w"
    by (simp add: find_None_iff)
  moreover from None have "spaceLen s = 0" by (simp add: spaceLen_def)
  ultimately show ?thesis by simp
next
  case (Some w)
  from find_SomeD [OF Some] have w: "w \<in> set White_Space" "take (length w) s = w" by simp_all
  then have "w \<noteq> []" by (simp add: White_Space_nonempty)
  moreover from Some have "spaceLen s = length w" by (simp add: spaceLen_def)
  ultimately have "spaceLen s \<noteq> 0" by simp
  with w show ?thesis by blast
qed

lemma TrimLeft_decomp: "\<exists>ls. set ls \<subseteq> set White_Space \<and> s = concat ls @ TrimLeft s"
proof (induction s rule: TrimLeft.induct)
  case (1 s)
  show ?case
  proof (cases "spaceLen s = 0")
    case True
    then have "TrimLeft s = s" by (subst TrimLeft.simps) simp
    then have "set [] \<subseteq> set White_Space \<and> s = concat [] @ TrimLeft s" by simp
    then show ?thesis by blast
  next
    case False
    let ?k = "spaceLen s"
    have t: "TrimLeft s = TrimLeft (drop ?k s)"
      using False by (subst TrimLeft.simps) simp
    from "1.IH" [OF False] obtain ls where ls: "set ls \<subseteq> set White_Space"
      and d: "drop ?k s = concat ls @ TrimLeft s" unfolding t [symmetric] by blast
    have "s = take ?k s @ drop ?k s" by simp
    also have "drop ?k s = concat ls @ TrimLeft s" by (fact d)
    finally have "s = concat (take ?k s # ls) @ TrimLeft s" by simp
    moreover have "set (take ?k s # ls) \<subseteq> set White_Space"
      using ls spaceLen_pos [OF False] by simp
    ultimately show ?thesis by blast
  qed
qed

lemma TrimLeft_no_space: "spaceLen (TrimLeft s) = 0"
proof (induction s rule: TrimLeft.induct)
  case (1 s)
  show ?case
  proof (cases "spaceLen s = 0")
    case True
    then show ?thesis by (subst TrimLeft.simps) simp
  next
    case False
    with "1.IH" show ?thesis by (subst TrimLeft.simps) simp
  qed
qed

lemma TrimRight_decomp: "\<exists>rs. set rs \<subseteq> set White_Space \<and> s = TrimRight s @ concat rs"
proof (induction s rule: TrimRight.induct)
  case (1 s)
  show ?case
  proof (cases "spaceLenLast s = 0")
    case True
    then have "TrimRight s = s" by (subst TrimRight.simps) simp
    then have "set [] \<subseteq> set White_Space \<and> s = TrimRight s @ concat []" by simp
    then show ?thesis by blast
  next
    case False
    let ?k = "length s - spaceLenLast s"
    have t: "TrimRight s = TrimRight (take ?k s)"
      using False by (subst TrimRight.simps) simp
    from "1.IH" [OF False] obtain rs where rs: "set rs \<subseteq> set White_Space"
      and d: "take ?k s = TrimRight s @ concat rs" unfolding t [symmetric] by blast
    have "s = take ?k s @ drop ?k s" by simp
    also have "take ?k s = TrimRight s @ concat rs" by (fact d)
    finally have "s = TrimRight s @ concat (rs @ [drop ?k s])" by simp
    moreover have "set (rs @ [drop ?k s]) \<subseteq> set White_Space"
      using rs spaceLenLast_pos [OF False] by simp
    ultimately show ?thesis by blast
  qed
qed

lemma TrimRight_no_space: "spaceLenLast (TrimRight s) = 0"
proof (induction s rule: TrimRight.induct)
  case (1 s)
  show ?case
  proof (cases "spaceLenLast s = 0")
    case True
    then show ?thesis by (subst TrimRight.simps) simp
  next
    case False
    with "1.IH" show ?thesis by (subst TrimRight.simps) simp
  qed
qed

lemma spaceLen_prefix:
  assumes z: "spaceLen (t @ r) = 0"
  shows "spaceLen t = 0"
  unfolding spaceLen_zero_iff
proof
  fix w assume w: "w \<in> set White_Space"
  show "take (length w) t \<noteq> w"
  proof
    assume e: "take (length w) t = w"
    then have "length (take (length w) t) = length w" by simp
    then have "length w \<le> length t" by simp
    then have "take (length w) (t @ r) = take (length w) t" by simp
    with e have "take (length w) (t @ r) = w" by (simp only:)
    moreover from z w have "take (length w) (t @ r) \<noteq> w"
      unfolding spaceLen_zero_iff by blast
    ultimately show False by blast
  qed
qed

lemma TrimRight_keeps_head:
  assumes z: "spaceLen s = 0"
  shows "spaceLen (TrimRight s) = 0"
proof -
  obtain rs where "s = TrimRight s @ concat rs" using TrimRight_decomp by blast
  with z have "spaceLen (TrimRight s @ concat rs) = 0" by simp
  then show ?thesis by (rule spaceLen_prefix)
qed

lemma TrimSpace_decomp:
  "\<exists>ls rs. set ls \<subseteq> set White_Space \<and> set rs \<subseteq> set White_Space \<and>
     s = concat ls @ TrimSpace s @ concat rs \<and>
     spaceLen (TrimSpace s) = 0 \<and> spaceLenLast (TrimSpace s) = 0"
proof -
  obtain ls where ls: "set ls \<subseteq> set White_Space" and l: "s = concat ls @ TrimLeft s"
    using TrimLeft_decomp by blast
  obtain rs where rs: "set rs \<subseteq> set White_Space"
    and r: "TrimLeft s = TrimRight (TrimLeft s) @ concat rs"
    using TrimRight_decomp by blast
  have "s = concat ls @ TrimLeft s" by (fact l)
  also have "TrimLeft s = TrimSpace s @ concat rs" using r by (simp add: TrimSpace_def)
  finally have "s = concat ls @ TrimSpace s @ concat rs" .
  moreover have "spaceLen (TrimSpace s) = 0"
    unfolding TrimSpace_def by (rule TrimRight_keeps_head) (rule TrimLeft_no_space)
  moreover have "spaceLenLast (TrimSpace s) = 0"
    unfolding TrimSpace_def by (rule TrimRight_no_space)
  ultimately show ?thesis using ls rs by blast
qed

text \<open>
  C3, as the specification states it: the text of a node is trimmed and has every internal
  run of white space, newlines included, collapsed to a single space.  The source only
  trims: on a cell whose text nodes are "  two  spaces(newline)newline " and " bold", the
  result keeps the two spaces, the newline and the three spaces around the joint.
\<close>

theorem text_collapse_counterexample:
  "text' spacedCell = ''two  spaces'' @ [CHR 0x0A] @ ''newline   bold'' \<and>
   normalizedText spacedCell = ''two spaces newline bold''"
  by code_simp

text \<open>
  C3, amended: in a tree whose text nodes are leaves (as in every parsed document), the
  text of a node is the contents of the text nodes of its subtree in document order, joined
  by single spaces, with the white space at the two ends removed and nothing else changed:
  the joined string is the result between two sequences of white space runes, and the
  result neither starts nor ends with a white space rune.
\<close>

theorem text_trimmed_join:
  assumes "list_all (\<lambda>m. Type m = TextNode \<longrightarrow> children m = []) (preorder n)"
  shows "\<exists>ls rs. set ls \<subseteq> set White_Space \<and> set rs \<subseteq> set White_Space \<and>
           Join (map Data (filter (\<lambda>m. Type m = TextNode) (preorder n))) '' ''
             = concat ls @ text' n @ concat rs \<and>
           spaceLen (text' n) = 0 \<and> spaceLenLast (text' n) = 0"
proof -
  have "findAll n (\<lambda>m. Type m = TextNode) = filter (\<lambda>m. Type m = TextNode) (preorder n)"
    using assms by (rule findAll_leaves)
  then have "text' n
      = TrimSpace (Join (map Data (filter (\<lambda>m. Type m = TextNode) (preorder n))) '' '')"
    by (simp add: text'_def)
  then show ?thesis
    using TrimSpace_decomp
      [of "Join (map Data (filter (\<lambda>m. Type m = TextNode) (preorder n))) '' ''"]
    by simp
qed

theorem text_trimmed_join_witness:
  "list_all (\<lambda>m. Type m = TextNode \<longrightarrow> children m = []) (preorder spacedCell) \<and>
   Join (map Data (filter (\<lambda>m. Type m = TextNode) (preorder spacedCell))) '' ''
     = ''  two  spaces'' @ [CHR 0x0A] @ ''newline   bold'' \<and>
   (\<exists>ls rs. set ls \<subseteq> set White_Space \<and> set rs \<subseteq> set White_Space \<and>
      ''  two  spaces'' @ [CHR 0x0A] @ ''newline   bold''
        = concat ls @ text' spacedCell @ concat rs \<and>
      spaceLen (text' spacedCell) = 0 \<and> spaceLenLast (text' spacedCell) = 0)"
proof -
  have leaves: "list_all (\<lambda>m. Type m = TextNode \<longrightarrow> children m = []) (preorder spacedCell)"
    by (simp add: spacedCell_def element_def textNode_def)
  have joined: "Join (map Data (filter (\<lambda>m. Type m = TextNode) (preorder spacedCell))) '' ''
      = ''  two  spaces'' @ [CHR 0x0A] @ ''newline   bold''"
    by (simp add: spacedCell_def element_def textNode_def)
  show ?thesis
    using text_trimmed_join [OF leaves] leaves joined by simp
qed

section \<open>Attribute lookup\<close>

lemma attrLoop_find:
  "attrLoop as key = (case find (\<lambda>a. Key a = key) as of None \<Rightarrow> [] | Some a \<Rightarrow> Val a)"
  by (induction as) simp_all

lemma Fields_empty: "Fields [] = []"
  by (simp add: Fields_def FieldsFrom.simps [of "[]" "[]"])

text \<open>
  C10: \<open>attr\<close> returns the value of the first attribute of the node with the given key,
  and the empty string when the node has none; so a node without the attribute and a node
  whose first such attribute is empty get the same answer, and the consumers treat them
  alike: a node whose "id" lookup is empty is not the anchor (the search goes on with its
  children), and a node whose "class" lookup is empty is neither a section header nor a
  table wrapper (the two loops go on with the parent and with the next sibling).
\<close>

theorem attr_first_or_empty:
  "attr n key = (case find (\<lambda>a. Key a = key) (Attr n) of None \<Rightarrow> [] | Some a \<Rightarrow> Val a) \<and>
   (find (\<lambda>a. Key a = key) (Attr n) = None \<and>
    find (\<lambda>a. Key a = key) (Attr m) = Some a \<and> Val a = [] \<longrightarrow> attr n key = attr m key) \<and>
   (attr n ''id'' = [] \<longrightarrow> findMatrix (Loc n up) = findMatrixLoop (FirstChild (Loc n up))) \<and>
   (attr n ''class'' = [] \<longrightarrow>
      sectionLoop (Some (Loc n up)) = sectionLoop (Parent (Loc n up)) \<and>
      nextLoop (Some (Loc n up)) = nextLoop (NextSibling (Loc n up)))"
proof (intro conjI impI)
  show "attr n key = (case find (\<lambda>a. Key a = key) (Attr n) of None \<Rightarrow> [] | Some a \<Rightarrow> Val a)"
    by (simp add: attrLoop_find)
next
  assume "find (\<lambda>a. Key a = key) (Attr n) = None \<and>
    find (\<lambda>a. Key a = key) (Attr m) = Some a \<and> Val a = []"
  then show "attr n key = attr m key" by (simp add: attrLoop_find)
next
  assume "attr n ''id'' = []"
  then have "attr (focus (Loc n up)) ''id'' \<noteq> ''instance-type-matrix''" by simp
  then show "findMatrix (Loc n up) = findMatrixLoop (FirstChild (Loc n up))"
    by (subst findMatrix.simps) (simp only: if_False)
next
  assume e: "attr n ''class'' = []"
  then have "Fields (attr (focus (Loc n up)) ''class'') = []" by (simp add: Fields_empty)
  then show "sectionLoop (Some (Loc n up)) = sectionLoop (Parent (Loc n up))"
    by (simp add: Let_def)
next
  assume e: "attr n ''class'' = []"
  then have "Fields (attr (focus (Loc n up)) ''class'') = []" by (simp add: Fields_empty)
  then show "nextLoop (Some (Loc n up)) = nextLoop (NextSibling (Loc n up))"
    by (simp add: Let_def)
qed

theorem attr_first_or_empty_witness:
  "attr emptyAttrNode ''id'' = [] \<and> attr bareNode ''id'' = attr emptyAttrNode ''id'' \<and>
   attr bareNode ''class'' = attr emptyAttrNode ''class'' \<and>
   findMatrix (Loc bareNode []) = None \<and> findMatrix (Loc emptyAttrNode []) = None \<and>
   sectionLoop (Some (Loc bareNode [])) = None \<and>
   sectionLoop (Some (Loc emptyAttrNode [])) = None \<and>
   nextLoop (Some (Loc bareNode [])) = None \<and> nextLoop (Some (Loc emptyAttrNode [])) = None"
proof -
  have fb: "find (\<lambda>a. Key a = ''id'') (Attr bareNode) = None"
    "find (\<lambda>a. Key a = ''class'') (Attr bareNode) = None"
    by (simp_all add: bareNode_def element_def)
  have fe: "find (\<lambda>a. Key a = ''id'') (Attr emptyAttrNode) = Some (attribute ''id'' [])"
    "find (\<lambda>a. Key a = ''class'') (Attr emptyAttrNode) = Some (attribute ''class'' [])"
    by (simp_all add: emptyAttrNode_def element_def attribute_def)
  have v: "Val (attribute ''id'' []) = []" "Val (attribute ''class'' []) = []"
    by (simp_all add: attribute_def)
  have nav: "FirstChild (Loc bareNode []) = None" "FirstChild (Loc emptyAttrNode []) = None"
    "Parent (Loc bareNode []) = None" "Parent (Loc emptyAttrNode []) = None"
    "NextSibling (Loc bareNode []) = None" "NextSibling (Loc emptyAttrNode []) = None"
    by (simp_all add: bareNode_def emptyAttrNode_def element_def)
  note b1 = attr_first_or_empty [of bareNode "''id''" emptyAttrNode "attribute ''id'' []" "[]"]
  note b2 = attr_first_or_empty [of bareNode "''class''" emptyAttrNode "attribute ''class'' []" "[]"]
  note e1 = attr_first_or_empty [of emptyAttrNode "''id''" emptyAttrNode "attribute ''id'' []" "[]"]
  note e2 = attr_first_or_empty [of emptyAttrNode "''class''" emptyAttrNode "attribute ''class'' []" "[]"]
  from b1 b2 e1 e2 fb fe v nav show ?thesis by simp
qed

section \<open>Section locator\<close>

lemma contains_iff: "contains sli ele \<longleftrightarrow> ele \<in> set sli"
  by (induction sli) auto

lemma sectionLoop_find: "sectionLoop (Parent l) = find isSectionHeader (ancestors l)"
proof (induction l rule: ancestors.induct)
  case (1 l)
  show ?case
  proof (cases "Parent l")
    case None
    then show ?thesis by (subst ancestors.simps) simp
  next
    case (Some p)
    from "1.IH" [OF Some] have "sectionLoop (Parent p) = find isSectionHeader (ancestors p)" .
    with Some show ?thesis
      by (subst ancestors.simps)
        (simp add: Let_def contains_iff isSectionHeader_def classTokens_def)
  qed
qed

lemma nextLoop_find: "nextLoop (NextSibling l) = find isTableWrapper (followingSiblings l)"
proof (induction l rule: followingSiblings.induct)
  case (1 l)
  show ?case
  proof (cases "NextSibling l")
    case None
    then show ?thesis by (subst followingSiblings.simps) simp
  next
    case (Some s)
    from "1.IH" [OF Some]
    have "nextLoop (NextSibling s) = find isTableWrapper (followingSiblings s)" .
    with Some show ?thesis
      by (subst followingSiblings.simps)
        (simp add: Let_def contains_iff isTableWrapper_def classTokens_def)
  qed
qed

text \<open>Moving to the first child or to the next sibling keeps the parent, as the pointers
  of a document do; and the node \<^verbatim>\<open>findMatrix\<close> returns has the id that is looked for.\<close>

lemma FirstChild_Parent: "FirstChild l = Some c \<Longrightarrow> Parent c = Some l"
  by (cases l rule: FirstChild.cases) auto

lemma NextSibling_Parent: "NextSibling l = Some s \<Longrightarrow> Parent s = Parent l"
  by (cases l rule: NextSibling.cases) auto

lemma findMatrix_anchor:
  "findMatrix l = Some a \<Longrightarrow> attr (focus a) ''id'' = ''instance-type-matrix''"
  and findMatrixLoop_anchor:
  "findMatrixLoop c = Some a \<Longrightarrow> attr (focus a) ''id'' = ''instance-type-matrix''"
proof (induction l and c rule: findMatrix_findMatrixLoop.induct)
  case (1 node)
  then show ?case by (auto split: if_splits)
next
  case 2
  then show ?case by simp
next
  case (3 c)
  then show ?case by (auto split: option.splits)
qed

lemma located_matrixDoc:
  "locateSection matrixDoc = (Inr (tableLoc [headerRow, goodRow, largeRow]) :: unit error + Loc)"
  by code_simp

lemma located_failingDoc:
  "locateSection failingDoc = (Inr (tableLoc [headerRow, goodRow, clockRow]) :: unit error + Loc)"
  by code_simp

lemma located_smallDoc:
  "locateSection smallDoc = (Inr (tableLoc [headerRow, shortRow]) :: unit error + Loc)"
  by code_simp

text \<open>
  C4, as the specification states it: the walk upwards starts at the anchor itself.  In
  the source it starts at the parent of the anchor: in a document whose anchor carries the
  class tokens "section" and "title-wrapper" itself, has no such ancestor and is followed
  by a table wrapper, the locator of the specification finds the table wrapper, and the
  source fails with \<open>SectionHeaderNotFound\<close>.
\<close>

theorem locateSection_anchor_counterexample:
  "(locateSection anchorHeaderDoc :: unit error + Loc) = Inl SectionHeaderNotFound \<and>
   (locateSectionSpec anchorHeaderDoc :: unit error + Loc)
     = Inr (Loc (tableWrapper [])
         [Crumb DocumentNode (OtherAtom 0) [] []
            [element (OtherAtom 6) ''h2''
               [attribute ''id'' ''instance-type-matrix'',
                attribute ''class'' ''section title-wrapper''] []] []])"
  by code_simp

text \<open>
  C4, amended: from the anchor (the first node in preorder whose "id" is
  "instance-type-matrix"; \<open>AnchorNotFound\<close> when there is none) the locator walks upwards
  through the proper ancestors of the anchor, starting at its parent, to the nearest one
  whose class tokens (the class attribute split at white space, compared by equality)
  contain both "section" and "title-wrapper", and fails with \<open>SectionHeaderNotFound\<close>
  when there is none; from that header it walks through the siblings after it to the first
  whose class tokens contain both "section" and "table-wrapper", which is the result, and
  fails with \<open>TableWrapperNotFound\<close> when there is none.
\<close>

theorem locateSection_nearest:
  "(locateSection root :: 'e error + Loc) =
     (case findMatrix (Loc root []) of
        None \<Rightarrow> Inl AnchorNotFound
      | Some anchor \<Rightarrow>
         (case find isSectionHeader (ancestors anchor) of
            None \<Rightarrow> Inl SectionHeaderNotFound
          | Some header \<Rightarrow>
             (case find isTableWrapper (followingSiblings header) of
                None \<Rightarrow> Inl TableWrapperNotFound
              | Some next \<Rightarrow> Inr next)))"
  by (simp only: locateSection_def sectionLoop_find nextLoop_find)

theorem locateSection_nearest_witness:
  "(case findMatrix (Loc matrixDoc []) of
        None \<Rightarrow> Inl AnchorNotFound
      | Some anchor \<Rightarrow>
         (case find isSectionHeader (ancestors anchor) of
            None \<Rightarrow> Inl SectionHeaderNotFound
          | Some header \<Rightarrow>
             (case find isTableWrapper (followingSiblings header) of
                None \<Rightarrow> Inl TableWrapperNotFound
              | Some next \<Rightarrow> Inr next)))
   = (Inr (tableLoc [headerRow, goodRow, largeRow]) :: unit error + Loc)"
  using locateSection_nearest [where ?'e = unit, of matrixDoc] located_matrixDoc
  by (simp only:)

section \<open>Catalog fetcher\<close>

lemma rowsLoop_Inr_iff:
  "rowsLoop ul pf acc rows = (Inr ts :: 'e error + 'f InstanceType list) \<longleftrightarrow>
     (\<exists>ts'. ts = acc @ ts' \<and>
        map (parseRow ul pf) rows = (map Inr ts' :: ('e error + 'f InstanceType) list))"
proof (induction rows arbitrary: acc)
  case Nil
  then show ?case by auto
next
  case (Cons row rows)
  show ?case
  proof (cases "parseRow ul pf row :: 'e error + 'f InstanceType")
    case (Inl e)
    then show ?thesis by (auto simp: Cons_eq_map_conv)
  next
    case (Inr t)
    have "rowsLoop ul pf acc (row # rows) = (Inr ts :: 'e error + 'f InstanceType list) \<longleftrightarrow>
        (\<exists>ts''. ts = (acc @ [t]) @ ts'' \<and>
           map (parseRow ul pf) rows = (map Inr ts'' :: ('e error + 'f InstanceType) list))"
      using Inr Cons.IH [of "acc @ [t]"] by simp
    also have "\<dots> \<longleftrightarrow> (\<exists>ts'. ts = acc @ ts' \<and>
        map (parseRow ul pf) (row # rows) = (map Inr ts' :: ('e error + 'f InstanceType) list))"
      using Inr by (auto simp: Cons_eq_map_conv)
    finally show ?thesis .
  qed
qed

lemma rowsLoop_Inl_iff:
  "(\<exists>e. rowsLoop ul pf acc rows = (Inl e :: 'e error + 'f InstanceType list)) \<longleftrightarrow>
     (\<exists>row \<in> set rows. \<exists>e. parseRow ul pf row = (Inl e :: 'e error + 'f InstanceType))"
proof (induction rows arbitrary: acc)
  case Nil
  then show ?case by simp
next
  case (Cons row rows)
  show ?case
  proof (cases "parseRow ul pf row :: 'e error + 'f InstanceType")
    case (Inl e)
    then show ?thesis by auto
  next
    case (Inr t)
    with Cons.IH [of "acc @ [t]"] show ?thesis by auto
  qed
qed

lemma InstanceTypes_located:
  assumes "(case client of None \<Rightarrow> DefaultClient | Some c \<Rightarrow> c) instanceTypeURL = Inr resp"
    and "StatusCode resp = StatusOK"
    and "htmlParse (Body resp) = Inr root"
    and "locateSection root = (Inr wrapper :: 'e error + Loc)"
  shows "InstanceTypes (DefaultClient :: ('e, 'b) Client) htmlParse unicodeLower parseFloat client =
     ([HttpGet instanceTypeURL, HtmlParse],
      if length (findAll (focus wrapper) (byTag Tr)) < 3 then Inl TableTooSmall
      else rowsLoop unicodeLower parseFloat [] (tl (findAll (focus wrapper) (byTag Tr))))"
  using assms by (simp add: InstanceTypes_def Let_def)

lemma rows_tableLoc:
  "findAll (focus (tableLoc [headerRow, goodRow, largeRow])) (byTag Tr)
     = [headerRow, goodRow, largeRow] \<and>
   findAll (focus (tableLoc [headerRow, goodRow, clockRow])) (byTag Tr)
     = [headerRow, goodRow, clockRow] \<and>
   findAll (focus (tableLoc [headerRow, shortRow])) (byTag Tr) = [headerRow, shortRow]"
  by code_simp

lemma largeRow_parses:
  "parseRow (\<lambda>s. s) fixtureParseFloat largeRow = (Inr largeRecord :: unit error + _)"
  by code_simp

lemma clockRow_fails:
  "parseRow (\<lambda>s. s) fixtureParseFloat clockRow
     = (Inl (NumericParseError ''Memory'' ''3.75'') :: unit error + (int \<times> int) InstanceType)"
  by code_simp

lemma serve_ok:
  "(case None of None \<Rightarrow> serve 200 ''200 OK'' doc | Some c \<Rightarrow> c) instanceTypeURL
     = Inr \<lparr> StatusCode = 200, Status = ''200 OK'', Body = doc \<rparr>"
  by (simp add: serve_def)

text \<open>
  C8: when the response has a status other than 200 (OK), \<open>InstanceTypes\<close> fails with
  \<open>BadStatus\<close>, carrying the status of the response, whatever the body and the parser are,
  and the only call made is the GET: \<^verbatim>\<open>html.Parse\<close> is not called.
\<close>

theorem InstanceTypes_bad_status:
  assumes "(case client of None \<Rightarrow> DefaultClient | Some c \<Rightarrow> c) instanceTypeURL = Inr resp"
    and "StatusCode resp \<noteq> StatusOK"
  shows "InstanceTypes DefaultClient htmlParse unicodeLower parseFloat client
           = ([HttpGet instanceTypeURL], Inl (BadStatus (Status resp))) \<and>
         HtmlParse \<notin> set (fst (InstanceTypes DefaultClient htmlParse unicodeLower parseFloat client))"
  using assms by (simp add: InstanceTypes_def)

theorem InstanceTypes_bad_status_witness:
  "StatusCode \<lparr> StatusCode = 503, Status = ''503 Service Unavailable'', Body = matrixDoc \<rparr>
     \<noteq> StatusOK \<and>
   InstanceTypes (serve 200 ''200 OK'' matrixDoc) parsed (\<lambda>s. s) fixtureParseFloat
       (Some (serve 503 ''503 Service Unavailable'' matrixDoc))
     = ([HttpGet instanceTypeURL], Inl (BadStatus ''503 Service Unavailable'')) \<and>
   HtmlParse \<notin> set (fst (InstanceTypes (serve 200 ''200 OK'' matrixDoc) parsed (\<lambda>s. s)
       fixtureParseFloat (Some (serve 503 ''503 Service Unavailable'' matrixDoc))))"
proof -
  have get: "(case Some (serve 503 ''503 Service Unavailable'' matrixDoc) of
        None \<Rightarrow> serve 200 ''200 OK'' matrixDoc | Some c \<Rightarrow> c) instanceTypeURL
      = Inr \<lparr> StatusCode = 503, Status = ''503 Service Unavailable'', Body = matrixDoc \<rparr>"
    by (simp add: serve_def)
  have bad: "StatusCode \<lparr> StatusCode = 503, Status = ''503 Service Unavailable'',
      Body = matrixDoc \<rparr> \<noteq> StatusOK"
    by (simp add: StatusOK_def)
  show ?thesis
    using InstanceTypes_bad_status [OF get bad, of parsed "\<lambda>s. s" fixtureParseFloat] bad
    by simp
qed

text \<open>
  C5: when the table wrapper has been located, \<open>InstanceTypes\<close> fails with \<open>TableTooSmall\<close>
  if fewer than 3 rows are found in it, whatever the rows hold (none of them is parsed);
  otherwise the first row is dropped and the catalog returned, if any, holds one record
  for each remaining row, in document order, each the result of parsing its row: \<open>N - 1\<close>
  records for \<open>N\<close> rows.  A catalog is returned exactly when every remaining row parses.
\<close>

theorem InstanceTypes_rows:
  assumes "(case client of None \<Rightarrow> DefaultClient | Some c \<Rightarrow> c) instanceTypeURL = Inr resp"
    and "StatusCode resp = StatusOK"
    and "htmlParse (Body resp) = Inr root"
    and "locateSection root = (Inr next :: 'e error + Loc)"
  shows "(length (findAll (focus next) (byTag Tr)) < 3 \<longrightarrow>
            snd (InstanceTypes (DefaultClient :: ('e, 'b) Client) htmlParse unicodeLower
                   parseFloat client)
              = (Inl TableTooSmall :: 'e error + 'f InstanceType list)) \<and>
         (3 \<le> length (findAll (focus next) (byTag Tr)) \<longrightarrow>
            (\<forall>ts. snd (InstanceTypes DefaultClient htmlParse unicodeLower parseFloat client)
                    = (Inr ts :: 'e error + 'f InstanceType list)
               \<longleftrightarrow> map (parseRow unicodeLower parseFloat) (tl (findAll (focus next) (byTag Tr)))
                    = (map Inr ts :: ('e error + 'f InstanceType) list)) \<and>
            (\<forall>ts. snd (InstanceTypes DefaultClient htmlParse unicodeLower parseFloat client)
                    = (Inr ts :: 'e error + 'f InstanceType list)
               \<longrightarrow> length ts = length (findAll (focus next) (byTag Tr)) - 1))"
proof (intro conjI impI allI)
  note located = InstanceTypes_located [where client = client and DefaultClient = DefaultClient
      and htmlParse = htmlParse and resp = resp and root = root and wrapper = "next",
      OF assms]
  assume "length (findAll (focus next) (byTag Tr)) < 3"
  then show "snd (InstanceTypes DefaultClient htmlParse unicodeLower parseFloat client)
      = (Inl TableTooSmall :: 'e error + 'f InstanceType list)"
    by (simp add: located)
next
  note located = InstanceTypes_located [where client = client and DefaultClient = DefaultClient
      and htmlParse = htmlParse and resp = resp and root = root and wrapper = "next",
      OF assms]
  fix ts :: "'f InstanceType list"
  assume "3 \<le> length (findAll (focus next) (byTag Tr))"
  then show "snd (InstanceTypes DefaultClient htmlParse unicodeLower parseFloat client)
               = (Inr ts :: 'e error + 'f InstanceType list)
      \<longleftrightarrow> map (parseRow unicodeLower parseFloat) (tl (findAll (focus next) (byTag Tr)))
               = (map Inr ts :: ('e error + 'f InstanceType) list)"
    by (simp add: located rowsLoop_Inr_iff)
next
  note located = InstanceTypes_located [where client = client and DefaultClient = DefaultClient
      and htmlParse = htmlParse and resp = resp and root = root and wrapper = "next",
      OF assms]
  fix ts :: "'f InstanceType list"
  assume n: "3 \<le> length (findAll (focus next) (byTag Tr))"
    and r: "snd (InstanceTypes DefaultClient htmlParse unicodeLower parseFloat client)
               = (Inr ts :: 'e error + 'f InstanceType list)"
  from n r have "map (parseRow unicodeLower parseFloat) (tl (findAll (focus next) (byTag Tr)))
      = (map Inr ts :: ('e error + 'f InstanceType) list)"
    by (simp add: located rowsLoop_Inr_iff)
  then have "length (map (parseRow unicodeLower parseFloat :: _ \<Rightarrow> 'e error + 'f InstanceType)
      (tl (findAll (focus next) (byTag Tr)))) = length (map (Inr :: _ \<Rightarrow> 'e error + 'f InstanceType) ts)"
    by (simp only:)
  then show "length ts = length (findAll (focus next) (byTag Tr)) - 1" by simp
qed

theorem InstanceTypes_rows_witness:
  "length (findAll (focus (tableLoc [headerRow, shortRow])) (byTag Tr)) < 3 \<and>
   snd (InstanceTypes (serve 200 ''200 OK'' smallDoc) parsed (\<lambda>s. s) fixtureParseFloat None)
     = (Inl TableTooSmall :: unit error + (int \<times> int) InstanceType list) \<and>
   3 \<le> length (findAll (focus (tableLoc [headerRow, goodRow, largeRow])) (byTag Tr)) \<and>
   snd (InstanceTypes (serve 200 ''200 OK'' matrixDoc) parsed (\<lambda>s. s) fixtureParseFloat None)
     = Inr [goodRecord, largeRecord]"
proof -
  have ok: "StatusCode \<lparr> StatusCode = 200, Status = ''200 OK'', Body = doc \<rparr> = StatusOK"
    for doc :: Node by (simp add: StatusOK_def)
  have body: "parsed (Body \<lparr> StatusCode = 200, Status = ''200 OK'', Body = doc \<rparr>) = Inr doc"
    for doc :: Node by (simp add: parsed_def)
  have small: "length (findAll (focus (tableLoc [headerRow, shortRow])) (byTag Tr)) < 3"
    using rows_tableLoc by simp
  have three: "3 \<le> length (findAll (focus (tableLoc [headerRow, goodRow, largeRow])) (byTag Tr))"
    using rows_tableLoc by simp
  have parses: "map (parseRow (\<lambda>s. s) fixtureParseFloat)
      (tl (findAll (focus (tableLoc [headerRow, goodRow, largeRow])) (byTag Tr)))
      = (map Inr [goodRecord, largeRecord] :: (unit error + (int \<times> int) InstanceType) list)"
    using rows_tableLoc goodRow_parses largeRow_parses by simp
  note s = InstanceTypes_rows [where ?'f = "int \<times> int" and client = None
      and DefaultClient = "serve 200 ''200 OK'' smallDoc" and htmlParse = parsed
      and unicodeLower = "\<lambda>s. s" and parseFloat = fixtureParseFloat,
      OF serve_ok ok body located_smallDoc]
  note m = InstanceTypes_rows [where ?'f = "int \<times> int" and client = None
      and DefaultClient = "serve 200 ''200 OK'' matrixDoc" and htmlParse = parsed
      and unicodeLower = "\<lambda>s. s" and parseFloat = fixtureParseFloat,
      OF serve_ok ok body located_matrixDoc]
  from s small have "snd (InstanceTypes (serve 200 ''200 OK'' smallDoc) parsed (\<lambda>s. s)
      fixtureParseFloat None) = (Inl TableTooSmall :: unit error + (int \<times> int) InstanceType list)"
    by blast
  moreover from m three parses have "snd (InstanceTypes (serve 200 ''200 OK'' matrixDoc) parsed
      (\<lambda>s. s) fixtureParseFloat None) = Inr [goodRecord, largeRecord]"
    by blast
  ultimately show ?thesis using small three by blast
qed

lemma rowsLoop_Inl_row:
  "rowsLoop ul pf acc rows = (Inl e :: 'e error + 'f InstanceType list) \<Longrightarrow>
     \<exists>row \<in> set rows. parseRow ul pf row = (Inl e :: 'e error + 'f InstanceType)"
proof (induction rows arbitrary: acc)
  case Nil
  then show ?case by simp
next
  case (Cons row rows)
  show ?case
  proof (cases "parseRow ul pf row :: 'e error + 'f InstanceType")
    case (Inl e')
    with Cons.prems show ?thesis by simp
  next
    case (Inr t)
    with Cons.prems have "rowsLoop ul pf (acc @ [t]) rows = (Inl e :: 'e error + 'f InstanceType list)"
      by simp
    from Cons.IH [OF this] show ?thesis by simp
  qed
qed

text \<open>The outcomes of \<open>InstanceTypes\<close>, step by step.\<close>

lemma InstanceTypes_result_cases:
  fixes DefaultClient :: "('e, 'b) Client" and parseFloat :: "string \<Rightarrow> 'f option"
  shows
  "(\<forall>ts. snd (InstanceTypes DefaultClient htmlParse unicodeLower parseFloat client) = Inr ts \<longleftrightarrow>
      (\<exists>resp root next.
         (case client of None \<Rightarrow> DefaultClient | Some c \<Rightarrow> c) instanceTypeURL = Inr resp \<and>
         StatusCode resp = StatusOK \<and> htmlParse (Body resp) = Inr root \<and>
         locateSection root = (Inr next :: 'e error + Loc) \<and>
         3 \<le> length (findAll (focus next) (byTag Tr)) \<and>
         map (parseRow unicodeLower parseFloat) (tl (findAll (focus next) (byTag Tr)))
           = (map Inr ts :: ('e error + 'f InstanceType) list))) \<and>
   (\<forall>e. (case client of None \<Rightarrow> DefaultClient | Some c \<Rightarrow> c) instanceTypeURL = Inl e \<longrightarrow>
      snd (InstanceTypes DefaultClient htmlParse unicodeLower parseFloat client)
        = Inl (LibraryError e)) \<and>
   (\<forall>resp. (case client of None \<Rightarrow> DefaultClient | Some c \<Rightarrow> c) instanceTypeURL = Inr resp \<and>
      StatusCode resp \<noteq> StatusOK \<longrightarrow>
      snd (InstanceTypes DefaultClient htmlParse unicodeLower parseFloat client)
        = Inl (BadStatus (Status resp))) \<and>
   (\<forall>resp e. (case client of None \<Rightarrow> DefaultClient | Some c \<Rightarrow> c) instanceTypeURL = Inr resp \<and>
      StatusCode resp = StatusOK \<and> htmlParse (Body resp) = Inl e \<longrightarrow>
      snd (InstanceTypes DefaultClient htmlParse unicodeLower parseFloat client)
        = Inl (LibraryError e)) \<and>
   (\<forall>resp root e.
      (case client of None \<Rightarrow> DefaultClient | Some c \<Rightarrow> c) instanceTypeURL = Inr resp \<and>
      StatusCode resp = StatusOK \<and> htmlParse (Body resp) = Inr root \<and>
      locateSection root = (Inl e :: 'e error + Loc) \<longrightarrow>
      snd (InstanceTypes DefaultClient htmlParse unicodeLower parseFloat client) = Inl e) \<and>
   (\<forall>resp root next.
      (case client of None \<Rightarrow> DefaultClient | Some c \<Rightarrow> c) instanceTypeURL = Inr resp \<and>
      StatusCode resp = StatusOK \<and> htmlParse (Body resp) = Inr root \<and>
      locateSection root = (Inr next :: 'e error + Loc) \<and>
      length (findAll (focus next) (byTag Tr)) < 3 \<longrightarrow>
      snd (InstanceTypes DefaultClient htmlParse unicodeLower parseFloat client)
        = Inl TableTooSmall) \<and>
   (\<forall>resp root next.
      (case client of None \<Rightarrow> DefaultClient | Some c \<Rightarrow> c) instanceTypeURL = Inr resp \<and>
      StatusCode resp = StatusOK \<and> htmlParse (Body resp) = Inr root \<and>
      locateSection root = (Inr next :: 'e error + Loc) \<and>
      3 \<le> length (findAll (focus next) (byTag Tr)) \<and>
      (\<exists>row \<in> set (tl (findAll (focus next) (byTag Tr))). \<exists>e.
         parseRow unicodeLower parseFloat row = (Inl e :: 'e error + 'f InstanceType)) \<longrightarrow>
      (\<exists>row \<in> set (tl (findAll (focus next) (byTag Tr))). \<exists>e.
         parseRow unicodeLower parseFloat row = (Inl e :: 'e error + 'f InstanceType) \<and>
         snd (InstanceTypes DefaultClient htmlParse unicodeLower parseFloat client) = Inl e))"
proof (intro conjI allI impI)
  fix ts :: "'f InstanceType list"
  show "snd (InstanceTypes DefaultClient htmlParse unicodeLower parseFloat client) = Inr ts \<longleftrightarrow>
      (\<exists>resp root next.
         (case client of None \<Rightarrow> DefaultClient | Some c \<Rightarrow> c) instanceTypeURL = Inr resp \<and>
         StatusCode resp = StatusOK \<and> htmlParse (Body resp) = Inr root \<and>
         locateSection root = (Inr next :: 'e error + Loc) \<and>
         3 \<le> length (findAll (focus next) (byTag Tr)) \<and>
         map (parseRow unicodeLower parseFloat) (tl (findAll (focus next) (byTag Tr)))
           = (map Inr ts :: ('e error + 'f InstanceType) list))"
    by (auto simp: InstanceTypes_def Let_def rowsLoop_Inr_iff split: sum.splits)
next
  fix e
  assume "(case client of None \<Rightarrow> DefaultClient | Some c \<Rightarrow> c) instanceTypeURL = Inl e"
  then show "snd (InstanceTypes DefaultClient htmlParse unicodeLower parseFloat client)
      = (Inl (LibraryError e) :: 'e error + 'f InstanceType list)"
    by (simp add: InstanceTypes_def)
next
  fix resp
  assume "(case client of None \<Rightarrow> DefaultClient | Some c \<Rightarrow> c) instanceTypeURL = Inr resp \<and>
      StatusCode resp \<noteq> StatusOK"
  then show "snd (InstanceTypes DefaultClient htmlParse unicodeLower parseFloat client)
      = (Inl (BadStatus (Status resp)) :: 'e error + 'f InstanceType list)"
    by (simp add: InstanceTypes_def)
next
  fix resp e
  assume "(case client of None \<Rightarrow> DefaultClient | Some c \<Rightarrow> c) instanceTypeURL = Inr resp \<and>
      StatusCode resp = StatusOK \<and> htmlParse (Body resp) = Inl e"
  then show "snd (InstanceTypes DefaultClient htmlParse unicodeLower parseFloat client)
      = (Inl (LibraryError e) :: 'e error + 'f InstanceType list)"
    by (simp add: InstanceTypes_def)
next
  fix resp root and e :: "'e error"
  assume "(case client of None \<Rightarrow> DefaultClient | Some c \<Rightarrow> c) instanceTypeURL = Inr resp \<and>
      StatusCode resp = StatusOK \<and> htmlParse (Body resp) = Inr root \<and>
      locateSection root = (Inl e :: 'e error + Loc)"
  then show "snd (InstanceTypes DefaultClient htmlParse unicodeLower parseFloat client)
      = (Inl e :: 'e error + 'f InstanceType list)"
    by (simp add: InstanceTypes_def)
next
  fix resp root "next"
  assume "(case client of None \<Rightarrow> DefaultClient | Some c \<Rightarrow> c) instanceTypeURL = Inr resp \<and>
      StatusCode resp = StatusOK \<and> htmlParse (Body resp) = Inr root \<and>
      locateSection root = (Inr next :: 'e error + Loc) \<and>
      length (findAll (focus next) (byTag Tr)) < 3"
  then show "snd (InstanceTypes DefaultClient htmlParse unicodeLower parseFloat client)
      = (Inl TableTooSmall :: 'e error + 'f InstanceType list)"
    by (simp add: InstanceTypes_def)
next
  fix resp root "next"
  assume a: "(case client of None \<Rightarrow> DefaultClient | Some c \<Rightarrow> c) instanceTypeURL = Inr resp \<and>
      StatusCode resp = StatusOK \<and> htmlParse (Body resp) = Inr root \<and>
      locateSection root = (Inr next :: 'e error + Loc) \<and>
      3 \<le> length (findAll (focus next) (byTag Tr)) \<and>
      (\<exists>row \<in> set (tl (findAll (focus next) (byTag Tr))). \<exists>e.
         parseRow unicodeLower parseFloat row = (Inl e :: 'e error + 'f InstanceType))"
  then have r: "snd (InstanceTypes DefaultClient htmlParse unicodeLower parseFloat client)
      = (rowsLoop unicodeLower parseFloat [] (tl (findAll (focus next) (byTag Tr)))
          :: 'e error + 'f InstanceType list)"
    by (simp add: InstanceTypes_def Let_def)
  from a obtain e where "rowsLoop unicodeLower parseFloat []
      (tl (findAll (focus next) (byTag Tr))) = (Inl e :: 'e error + 'f InstanceType list)"
    using rowsLoop_Inl_iff [where ?'e = 'e and ?'f = 'f, of unicodeLower parseFloat "[]"
        "tl (findAll (focus next) (byTag Tr))"]
    by blast
  with r rowsLoop_Inl_row [OF this]
  show "\<exists>row \<in> set (tl (findAll (focus next) (byTag Tr))). \<exists>e.
         parseRow unicodeLower parseFloat row = (Inl e :: 'e error + 'f InstanceType) \<and>
         snd (InstanceTypes DefaultClient htmlParse unicodeLower parseFloat client) = Inl e"
    by auto
qed

text \<open>
  C9, as the specification states it: every returned record is fully populated and valid,
  where a valid record has a name that is not empty after trimming.  The source does not
  check the text fields: for a document whose first data row has an empty first cell, the
  catalog is returned and its first record has the empty name.
\<close>

theorem InstanceTypes_valid_counterexample:
  "snd (InstanceTypes (serve 200 ''200 OK'' namelessDoc) parsed (\<lambda>s. s) fixtureParseFloat None)
     = (Inr [namelessRecord, largeRecord] :: unit error + (int \<times> int) InstanceType list) \<and>
   Name namelessRecord = []"
  by code_simp

text \<open>
  C9, amended: \<open>InstanceTypes\<close> returns a catalog exactly when every step succeeds and
  every row after the first has a complete record, and the catalog then holds, in order,
  the complete record of each of those rows: 12 cells, the numeric fields the numbers their
  cells parse to (no default is put in their place), the boolean fields whether the cell
  says "yes", the text fields the texts of their cells, which are not checked and may be
  empty.  In every other case it returns an error and no catalog: the error of the GET,
  \<open>BadStatus\<close>, the error of \<^verbatim>\<open>html.Parse\<close>, the error of the section locator,
  \<open>TableTooSmall\<close>, or the error of a row that does not parse; the records of the rows
  parsed before that row are not returned.
\<close>

theorem InstanceTypes_complete_or_error:
  fixes DefaultClient :: "('e, 'b) Client" and parseFloat :: "string \<Rightarrow> 'f option"
  shows
  "(\<forall>ts. snd (InstanceTypes DefaultClient htmlParse unicodeLower parseFloat client) = Inr ts \<longleftrightarrow>
      (\<exists>resp root next.
         (case client of None \<Rightarrow> DefaultClient | Some c \<Rightarrow> c) instanceTypeURL = Inr resp \<and>
         StatusCode resp = StatusOK \<and> htmlParse (Body resp) = Inr root \<and>
         locateSection root = (Inr next :: 'e error + Loc) \<and>
         3 \<le> length (findAll (focus next) (byTag Tr)) \<and>
         list_all2 (recordOf unicodeLower parseFloat)
           (tl (findAll (focus next) (byTag Tr))) ts)) \<and>
   (\<forall>e. (case client of None \<Rightarrow> DefaultClient | Some c \<Rightarrow> c) instanceTypeURL = Inl e \<longrightarrow>
      snd (InstanceTypes DefaultClient htmlParse unicodeLower parseFloat client)
        = Inl (LibraryError e)) \<and>
   (\<forall>resp. (case client of None \<Rightarrow> DefaultClient | Some c \<Rightarrow> c) instanceTypeURL = Inr resp \<and>
      StatusCode resp \<noteq> StatusOK \<longrightarrow>
      snd (InstanceTypes DefaultClient htmlParse unicodeLower parseFloat client)
        = Inl (BadStatus (Status resp))) \<and>
   (\<forall>resp e. (case client of None \<Rightarrow> DefaultClient | Some c \<Rightarrow> c) instanceTypeURL = Inr resp \<and>
      StatusCode resp = StatusOK \<and> htmlParse (Body resp) = Inl e \<longrightarrow>
      snd (InstanceTypes DefaultClient htmlParse unicodeLower parseFloat client)
        = Inl (LibraryError e)) \<and>
   (\<forall>resp root e.
      (case client of None \<Rightarrow> DefaultClient | Some c \<Rightarrow> c) instanceTypeURL = Inr resp \<and>
      StatusCode resp = StatusOK \<and> htmlParse (Body resp) = Inr root \<and>
      locateSection root = (Inl e :: 'e error + Loc) \<longrightarrow>
      snd (InstanceTypes DefaultClient htmlParse unicodeLower parseFloat client) = Inl e) \<and>
   (\<forall>resp root next.
      (case client of None \<Rightarrow> DefaultClient | Some c \<Rightarrow> c) instanceTypeURL = Inr resp \<and>
      StatusCode resp = StatusOK \<and> htmlParse (Body resp) = Inr root \<and>
      locateSection root = (Inr next :: 'e error + Loc) \<and>
      length (findAll (focus next) (byTag Tr)) < 3 \<longrightarrow>
      snd (InstanceTypes DefaultClient htmlParse unicodeLower parseFloat client)
        = Inl TableTooSmall) \<and>
   (\<forall>resp root next.
      (case client of None \<Rightarrow> DefaultClient | Some c \<Rightarrow> c) instanceTypeURL = Inr resp \<and>
      StatusCode resp = StatusOK \<and> htmlParse (Body resp) = Inr root \<and>
      locateSection root = (Inr next :: 'e error + Loc) \<and>
      3 \<le> length (findAll (focus next) (byTag Tr)) \<and>
      (\<exists>row \<in> set (tl (findAll (focus next) (byTag Tr))). \<exists>e.
         parseRow unicodeLower parseFloat row = (Inl e :: 'e error + 'f InstanceType)) \<longrightarrow>
      (\<exists>row \<in> set (tl (findAll (focus next) (byTag Tr))). \<exists>e.
         parseRow unicodeLower parseFloat row = (Inl e :: 'e error + 'f InstanceType) \<and>
         snd (InstanceTypes DefaultClient htmlParse unicodeLower parseFloat client) = Inl e))"
  by (rule InstanceTypes_result_cases
      [where DefaultClient = DefaultClient and htmlParse = htmlParse
         and unicodeLower = unicodeLower and parseFloat = parseFloat and client = client,
       unfolded rows_recordOf])

theorem InstanceTypes_complete_or_error_witness:
  "snd (InstanceTypes (serve 200 ''200 OK'' matrixDoc) parsed (\<lambda>s. s) fixtureParseFloat None)
     = Inr [goodRecord, largeRecord] \<and>
   recordOf (\<lambda>s. s) fixtureParseFloat goodRow goodRecord \<and>
   recordOf (\<lambda>s. s) fixtureParseFloat largeRow largeRecord \<and>
   parseRow (\<lambda>s. s) fixtureParseFloat goodRow = (Inr goodRecord :: unit error + _) \<and>
   snd (InstanceTypes (serve 200 ''200 OK'' failingDoc) parsed (\<lambda>s. s) fixtureParseFloat None)
     = (Inl (NumericParseError ''Memory'' ''3.75'') :: unit error + (int \<times> int) InstanceType list)"
proof -
  have ok: "StatusCode \<lparr> StatusCode = 200, Status = ''200 OK'', Body = doc \<rparr> = StatusOK"
    for doc :: Node by (simp add: StatusOK_def)
  have body: "parsed (Body \<lparr> StatusCode = 200, Status = ''200 OK'', Body = doc \<rparr>) = Inr doc"
    for doc :: Node by (simp add: parsed_def)
  have three: "3 \<le> length (findAll (focus (tableLoc [headerRow, goodRow, largeRow])) (byTag Tr))"
    "3 \<le> length (findAll (focus (tableLoc [headerRow, goodRow, clockRow])) (byTag Tr))"
    using rows_tableLoc by simp_all
  have tl_failing: "tl (findAll (focus (tableLoc [headerRow, goodRow, clockRow])) (byTag Tr))
      = [goodRow, clockRow]"
    using rows_tableLoc by simp
  have good: "recordOf (\<lambda>s. s) fixtureParseFloat goodRow goodRecord"
    using goodRow_parses by (simp add: parseRow_recordOf [where ?'e = unit])
  have large: "recordOf (\<lambda>s. s) fixtureParseFloat largeRow largeRecord"
    using largeRow_parses by (simp add: parseRow_recordOf [where ?'e = unit])
  have records: "list_all2 (recordOf (\<lambda>s. s) fixtureParseFloat)
      (tl (findAll (focus (tableLoc [headerRow, goodRow, largeRow])) (byTag Tr)))
      [goodRecord, largeRecord]"
    using rows_tableLoc good large by simp
  note m = InstanceTypes_complete_or_error [where ?'f = "int \<times> int" and client = None
      and DefaultClient = "serve 200 ''200 OK'' matrixDoc" and htmlParse = parsed
      and unicodeLower = "\<lambda>s. s" and parseFloat = fixtureParseFloat]
  note f = InstanceTypes_complete_or_error [where ?'f = "int \<times> int" and client = None
      and DefaultClient = "serve 200 ''200 OK'' failingDoc" and htmlParse = parsed
      and unicodeLower = "\<lambda>s. s" and parseFloat = fixtureParseFloat]
  have "snd (InstanceTypes (serve 200 ''200 OK'' matrixDoc) parsed (\<lambda>s. s) fixtureParseFloat None)
      = Inr [goodRecord, largeRecord]"
    using m serve_ok [of matrixDoc] ok [of matrixDoc] body [of matrixDoc] located_matrixDoc
      three(1) records by blast
  moreover have "\<exists>row \<in> set (tl (findAll (focus (tableLoc [headerRow, goodRow, clockRow]))
        (byTag Tr))). \<exists>e.
      parseRow (\<lambda>s. s) fixtureParseFloat row = (Inl e :: unit error + (int \<times> int) InstanceType)"
    using tl_failing clockRow_fails by simp
  then have "\<exists>row \<in> set (tl (findAll (focus (tableLoc [headerRow, goodRow, clockRow]))
        (byTag Tr))). \<exists>e.
      parseRow (\<lambda>s. s) fixtureParseFloat row = (Inl e :: unit error + (int \<times> int) InstanceType) \<and>
      snd (InstanceTypes (serve 200 ''200 OK'' failingDoc) parsed (\<lambda>s. s) fixtureParseFloat None)
        = Inl e"
    using f serve_ok [of failingDoc] ok [of failingDoc] body [of failingDoc] located_failingDoc
      three(2) by blast
  then have "snd (InstanceTypes (serve 200 ''200 OK'' failingDoc) parsed (\<lambda>s. s)
      fixtureParseFloat None)
      = (Inl (NumericParseError ''Memory'' ''3.75'') :: unit error + (int \<times> int) InstanceType list)"
    using tl_failing clockRow_fails goodRow_parses by auto
  ultimately show ?thesis using goodRow_parses good large by simp
qed

end
